theory Spec2Isabelle
  imports Main "HOL-Library.While_Combinator"
begin

section \<open>Pointers, fatal conditions\<close>

text \<open>
  The pass works on raw pointers. An address is a natural number and \<open>0\<close> is the null
  pointer; pointers are compared by address, as \<open>operator<\<close> on them does.
  \<open>ptr\<close> is a \<open>PEGNode *\<close> (a \<open>PEGBasicBlock *\<close> is one of them), \<open>bbref\<close> a
  \<open>const BasicBlock *\<close> of the source function.
\<close>

type_synonym ptr = nat
type_synonym bbref = nat

abbreviation nullptr :: nat where
  "nullptr \<equiv> 0"

text \<open>
  What stops the pass: a failed \<open>assert\<close> (this includes reading an empty
  \<open>Optional\<close>, which asserts \<open>hasVal\<close>), \<open>report_fatal_error\<close>, and the use of a
  pointer that is null or does not point to an object of the expected class.
  Assertions are compiled in. What the pass prints to \<open>errs()\<close> is left out, but
  not the pointers it follows to print a name.
\<close>

datatype error = AssertFailed | FatalError | BadPointer

section \<open>Loops and loop sets\<close>

text \<open>
  A \<open>Loop\<close> object of the loop analysis: its address and its parent loop
  (\<open>getParentLoop()\<close>, absent for a top-level loop). Two loop pointers are equal when
  they are the same object.
\<close>

datatype loop = Loop (loopAddr: nat) (getParentLoop: "loop option")

text \<open>\<open>Loop::contains(const Loop *L)\<close>: \<open>L\<close> is this loop or nested in it.\<close>

fun contains :: "loop \<Rightarrow> loop option \<Rightarrow> bool" where
  "contains this None = False"
| "contains this (Some (Loop a p)) = (Loop a p = this \<or> contains this p)"

text \<open>
  \<open>ConstLoopSet\<close> is a \<open>std::set\<close> of \<open>const Loop *\<close>: it is kept as the sequence its
  iterator walks, in increasing address order, without repetition.
\<close>

type_synonym ConstLoopSet = "loop list"

fun loopset_insert :: "loop \<Rightarrow> ConstLoopSet \<Rightarrow> ConstLoopSet" where
  "loopset_insert L [] = [L]"
| "loopset_insert L (X # Xs) =
     (if loopAddr L < loopAddr X then L # X # Xs
      else if loopAddr X < loopAddr L then X # loopset_insert L Xs
      else X # Xs)"

text \<open>
  \<open>makeConstLoopSet\<close>: the loop \<open>for (Cur = L; Cur->getParentLoop() != nullptr;
  Cur = Cur->getParentLoop()) LS.insert(Cur)\<close>, after the test for a null \<open>L\<close>.
\<close>

fun makeConstLoopSet_for :: "loop \<Rightarrow> ConstLoopSet \<Rightarrow> ConstLoopSet" where
  "makeConstLoopSet_for (Loop a None) LS = LS"
| "makeConstLoopSet_for (Loop a (Some P)) LS =
     makeConstLoopSet_for P (loopset_insert (Loop a (Some P)) LS)"

fun makeConstLoopSet :: "loop option \<Rightarrow> ConstLoopSet" where
  "makeConstLoopSet None = []"
| "makeConstLoopSet (Some L) = makeConstLoopSet_for L []"

text \<open>\<open>isSubset(MayInner, Outer)\<close> is \<open>std::includes\<close> of the two sets.\<close>

definition isSubset :: "ConstLoopSet \<Rightarrow> ConstLoopSet \<Rightarrow> bool" where
  "isSubset MayInner Outer = (set MayInner \<subseteq> set Outer)"

text \<open>
  \<open>getOutermostLoopNotInLoop(Inner, Outer)\<close>. One turn of its loop takes the loop
  variable \<open>L\<close> and the local \<open>Outermost\<close> (null at first) and gives both back: the
  assignment in the inner branch is \<open>L = Outermost\<close>, to the loop variable.
\<close>

definition outermost_body :: "loop \<Rightarrow> loop option \<Rightarrow> loop \<times> loop option" where
  "outermost_body L Outermost =
     (case Outermost of
        None \<Rightarrow> (L, Some L)
      | Some Om \<Rightarrow> if contains L (Some Om) then (Om, Some Om) else (L, Some Om))"

fun outermost_for :: "ConstLoopSet \<Rightarrow> loop option \<Rightarrow> loop option" where
  "outermost_for [] Outermost = Outermost"
| "outermost_for (L # Ls) Outermost = outermost_for Ls (snd (outermost_body L Outermost))"

definition getOutermostLoopNotInLoop :: "ConstLoopSet \<Rightarrow> ConstLoopSet \<Rightarrow> error + loop" where
  "getOutermostLoopNotInLoop Inner Outer =
     (if \<not> isSubset Inner Outer then Inl AssertFailed
      else if \<not> 0 < length Outer then Inl AssertFailed
      else case outermost_for Outer None of
             None \<Rightarrow> Inl AssertFailed
           | Some L \<Rightarrow> Inr L)"

text \<open>
  What the name of the function and the specification ask for: a loop of \<open>Outer\<close> that
  is not in \<open>Inner\<close> and contains every other such loop.
\<close>

definition is_outermost_not_in :: "ConstLoopSet \<Rightarrow> ConstLoopSet \<Rightarrow> loop \<Rightarrow> bool" where
  "is_outermost_not_in Inner Outer L =
     (L \<in> set Outer \<and> L \<notin> set Inner \<and>
      list_all (\<lambda>M. M \<in> set Inner \<or> contains L (Some M)) Outer)"

section \<open>Edges\<close>

text \<open>
  \<open>class BBEdge\<close>: two block pointers. The root edge has a null \<open>Source\<close>.
\<close>

record BBEdge =
  Source :: ptr
  Dest :: ptr

definition getSource :: "BBEdge \<Rightarrow> ptr option" where
  "getSource E = (if Source E \<noteq> nullptr then Some (Source E) else None)"

definition getDest :: "BBEdge \<Rightarrow> ptr" where
  "getDest E = Dest E"

definition create :: "ptr \<Rightarrow> ptr \<Rightarrow> error + BBEdge" where
  "create S D =
     (if S = nullptr then Inl AssertFailed
      else if D = nullptr then Inl AssertFailed
      else Inr \<lparr>Source = S, Dest = D\<rparr>)"

definition makeEntryEdge :: "ptr \<Rightarrow> error + BBEdge" where
  "makeEntryEdge D = (if D = nullptr then Inl AssertFailed else Inr \<lparr>Source = nullptr, Dest = D\<rparr>)"

text \<open>\<open>operator==\<close> and \<open>operator<\<close> of \<open>BBEdge\<close>.\<close>

definition edge_eq :: "BBEdge \<Rightarrow> BBEdge \<Rightarrow> bool" where
  "edge_eq a other = (Dest a = Dest other \<and> Source a = Source other)"

definition edge_less :: "BBEdge \<Rightarrow> BBEdge \<Rightarrow> bool" where
  "edge_less a other = (Dest a < Dest other \<or> Source a < Source other)"

text \<open>The comparison of the pairs \<open>(dst, src)\<close> that the specification describes.\<close>

definition pair_less :: "BBEdge \<Rightarrow> BBEdge \<Rightarrow> bool" where
  "pair_less a other = (Dest a < Dest other \<or> (Dest a = Dest other \<and> Source a < Source other))"

text \<open>
  \<open>BBEdgeSet\<close> is a \<open>std::set\<close> of \<open>BBEdge\<close>, kept as the sequence its iterator walks.
  \<open>insert\<close> places a new key before the first key it is less than and drops a key
  that is neither less nor greater than one already there. Every set the pass builds
  holds edges into one block, and on those \<open>operator<\<close> orders by source address.
  On edges into different blocks \<open>operator<\<close> is no ordering; what a \<open>std::set\<close> does
  with such keys depends on the shape of its tree and is not what this function gives.
\<close>

type_synonym BBEdgeSet = "BBEdge list"

fun edgeset_insert :: "BBEdge \<Rightarrow> BBEdgeSet \<Rightarrow> BBEdgeSet" where
  "edgeset_insert E [] = [E]"
| "edgeset_insert E (X # Xs) =
     (if edge_less E X then E # X # Xs
      else if edge_less X E then X # edgeset_insert E Xs
      else X # Xs)"

section \<open>The common dominator of an edge set\<close>

text \<open>
  \<open>findCommonDominator(PEGDT, In)\<close>. The dominator tree of the APEG comes from
  \<open>PEGDominators.h\<close>; its \<open>findNearestCommonDominator\<close> is the parameter \<open>ncd\<close>.
  The loop reads \<open>*E.getSource()\<close> in every turn, which asserts on the root edge.
\<close>

fun findCommonDominator_for :: "(ptr \<Rightarrow> ptr \<Rightarrow> ptr) \<Rightarrow> BBEdgeSet \<Rightarrow> ptr \<Rightarrow> error + ptr" where
  "findCommonDominator_for ncd [] FinalDominator = Inr FinalDominator"
| "findCommonDominator_for ncd (E # Es) FinalDominator =
     (case getSource E of
        None \<Rightarrow> Inl AssertFailed
      | Some S \<Rightarrow>
          if FinalDominator = nullptr then findCommonDominator_for ncd Es S
          else findCommonDominator_for ncd Es (ncd FinalDominator S))"

definition findCommonDominator :: "(ptr \<Rightarrow> ptr \<Rightarrow> ptr) \<Rightarrow> BBEdgeSet \<Rightarrow> error + ptr" where
  "findCommonDominator ncd In =
     (if \<not> 0 < length In then Inl AssertFailed else findCommonDominator_for ncd In nullptr)"

text \<open>
  The fold the specification describes: the block an edge contributes is its source, and
  for the root edge its destination.
\<close>

definition edge_block :: "BBEdge \<Rightarrow> ptr" where
  "edge_block E = (case getSource E of Some S \<Rightarrow> S | None \<Rightarrow> getDest E)"

definition fold_ncd :: "(ptr \<Rightarrow> ptr \<Rightarrow> ptr) \<Rightarrow> BBEdgeSet \<Rightarrow> ptr" where
  "fold_ncd ncd In = foldl ncd (edge_block (hd In)) (map edge_block (tl In))"

section \<open>The PEG function and its nodes\<close>

text \<open>
  The fields a \<open>PEGBasicBlock\<close> gets from its constructor and keeps. A virtual forward
  node has \<open>IsVirtualForwardNode\<close> set; the concrete node of a loop header points to
  its virtual forward node.
\<close>

record PEGBasicBlock =
  BB :: bbref
  SurroundingLoop :: "loop option"
  IsEntry :: bool
  VirtualForwardNode :: ptr
  IsVirtualForwardNode :: bool

text \<open>
  Modelled from the spec: the node classes are declared in \<open>GraphRewrite.h\<close>. The four
  kinds of \<open>PEGNode\<close> are a block, the condition of a block, a phi node (condition,
  true value, false value) and a theta node (base, recurrence); operands are held by
  address.
\<close>

datatype PEGNode =
    PEGNK_BB PEGBasicBlock
  | PEGNK_Cond ptr
  | PEGNK_Phi ptr ptr ptr
  | PEGNK_Theta ptr ptr

text \<open>
  A \<open>PEGFunction\<close> owns its nodes: the constructor of \<open>PEGNode\<close> appends every new
  node to \<open>NodesList\<close>. The address of a node is its position in that list, counted
  from one. The list of the blocks alone, which the constructor of \<open>PEGBasicBlock\<close>
  also fills, is the blocks of \<open>NodesList\<close> and is not kept apart. The fields of a
  block that change after construction are kept by address: its predecessors and
  successors in the APEG, and its child.
\<close>

record PEGFunction =
  NodesList :: "PEGNode list"
  Predecessors :: "ptr \<Rightarrow> ptr list"
  Successors :: "ptr \<Rightarrow> ptr list"
  Child :: "ptr \<Rightarrow> ptr"

definition new_PEGFunction :: PEGFunction where
  "new_PEGFunction =
     \<lparr>NodesList = [], Predecessors = (\<lambda>_. []), Successors = (\<lambda>_. []), Child = (\<lambda>_. nullptr)\<rparr>"

definition new_node :: "PEGNode \<Rightarrow> PEGFunction \<Rightarrow> ptr \<times> PEGFunction" where
  "new_node N PF = (Suc (length (NodesList PF)), PF\<lparr>NodesList := NodesList PF @ [N]\<rparr>)"

definition node_at :: "PEGFunction \<Rightarrow> ptr \<Rightarrow> PEGNode option" where
  "node_at PF p =
     (if 0 < p \<and> p \<le> length (NodesList PF) then Some (NodesList PF ! (p - 1)) else None)"

text \<open>Following a \<open>PEGBasicBlock *\<close>: it has to point to a block.\<close>

definition block_at :: "PEGFunction \<Rightarrow> ptr \<Rightarrow> error + PEGBasicBlock" where
  "block_at PF p = (case node_at PF p of Some (PEGNK_BB B) \<Rightarrow> Inr B | _ \<Rightarrow> Inl BadPointer)"

text \<open>
  The constructor of \<open>PEGBasicBlock\<close>, with its two assertions: a virtual forward node
  has no virtual forward node of its own, and the node given as virtual forward node
  is marked as one.
\<close>

definition new_PEGBasicBlock ::
  "PEGFunction \<Rightarrow> bbref \<Rightarrow> loop option \<Rightarrow> bool \<Rightarrow> ptr \<Rightarrow> bool \<Rightarrow> error + ptr \<times> PEGFunction" where
  "new_PEGBasicBlock PF B L isEntry VFNode IsVF =
     (if IsVF \<and> VFNode \<noteq> nullptr then Inl AssertFailed
      else if VFNode \<noteq> nullptr then
        (case block_at PF VFNode of
           Inl e \<Rightarrow> Inl e
         | Inr V \<Rightarrow>
             if \<not> IsVirtualForwardNode V then Inl AssertFailed
             else Inr (new_node (PEGNK_BB \<lparr>BB = B, SurroundingLoop = L, IsEntry = isEntry,
                    VirtualForwardNode = VFNode, IsVirtualForwardNode = IsVF\<rparr>) PF))
      else Inr (new_node (PEGNK_BB \<lparr>BB = B, SurroundingLoop = L, IsEntry = isEntry,
                    VirtualForwardNode = VFNode, IsVirtualForwardNode = IsVF\<rparr>) PF))"

text \<open>
  Modelled from the spec: \<open>PEGBasicBlock::addEdge\<close> is declared in
  \<open>GraphRewrite.h\<close>. A block has an ordered list of predecessor and of successor blocks
  in the APEG; an edge is added to the end of both.
\<close>

definition addEdge :: "ptr \<Rightarrow> ptr \<Rightarrow> PEGFunction \<Rightarrow> PEGFunction" where
  "addEdge From To PF =
     PF\<lparr>Successors := (Successors PF)(From := Successors PF From @ [To]),
        Predecessors := (Predecessors PF)(To := Predecessors PF To @ [From])\<rparr>"

text \<open>
  Modelled from the spec: \<open>setChild\<close> is declared in \<open>GraphRewrite.h\<close>; it stores the
  child expression of a block.
\<close>

definition setChild :: "ptr \<Rightarrow> ptr \<Rightarrow> PEGFunction \<Rightarrow> PEGFunction" where
  "setChild PEGBB C PF = PF\<lparr>Child := (Child PF)(PEGBB := C)\<rparr>"

section \<open>The analyses and the source function\<close>

text \<open>
  The loop analysis is read through \<open>LoopInfo::getLoopFor\<close>, \<open>LoopInfo::isLoopHeader\<close>
  and \<open>Loop::isLoopLatch\<close>. The source function is read through its list of blocks
  (the first one is the entry block), \<open>predecessors(BB)\<close> and the terminator of a block.
\<close>

record LoopInfo =
  getLoopFor :: "bbref \<Rightarrow> loop option"
  LI_isLoopHeader :: "bbref \<Rightarrow> bool"
  Loop_isLoopLatch :: "loop \<Rightarrow> bbref \<Rightarrow> bool"

datatype Terminator = BranchInst (isConditional: bool) | OtherTerminator

record Function =
  blocks :: "bbref list"
  predecessors :: "bbref \<Rightarrow> bbref list"
  getTerminator :: "bbref \<Rightarrow> Terminator"

text \<open>
  What \<open>GraphRewrite.h\<close> and \<open>PEGDominators.h\<close> declare and this file only calls: three
  methods of \<open>PEGBasicBlock\<close> that read its terminator, and the construction of the
  dominator tree of the APEG, which gives the nearest common dominator of two blocks.
\<close>

record Declared =
  PEGBasicBlock_getUniqueSuccessor :: "PEGFunction \<Rightarrow> ptr \<Rightarrow> ptr"
  PEGBasicBlock_getTerminator :: "PEGFunction \<Rightarrow> ptr \<Rightarrow> Terminator"
  PEGBasicBlock_getTrueFalseSuccessors :: "PEGFunction \<Rightarrow> ptr \<Rightarrow> ptr \<times> ptr"
  PEGDT_recalculate :: "PEGFunction \<Rightarrow> ptr \<Rightarrow> ptr \<Rightarrow> ptr"

text \<open>
  The members of \<open>class GraphRewrite\<close>. \<open>BBMap\<close> is a \<open>std::map\<close> that is walked, so
  it is kept as the sequence of its entries in increasing key order; the other two maps
  are only looked up.
\<close>

record GraphRewrite =
  PEGDT :: "ptr \<Rightarrow> ptr \<Rightarrow> ptr"
  RootEdge :: "BBEdge option"
  F :: "Function option"
  BBMap :: "(bbref \<times> ptr) list"
  CondMap :: "ptr \<Rightarrow> ptr option"

fun bbmap_set :: "bbref \<Rightarrow> ptr \<Rightarrow> (bbref \<times> ptr) list \<Rightarrow> (bbref \<times> ptr) list" where
  "bbmap_set k v [] = [(k, v)]"
| "bbmap_set k v ((k', v') # m) =
     (if k < k' then (k, v) # (k', v') # m
      else if k' < k then (k', v') # bbmap_set k v m
      else (k, v) # m)"

definition getLoopSet :: "PEGBasicBlock \<Rightarrow> ConstLoopSet" where
  "getLoopSet B = makeConstLoopSet (SurroundingLoop B)"

definition isLoopHeader :: "LoopInfo \<Rightarrow> PEGBasicBlock \<Rightarrow> bool" where
  "isLoopHeader LI B = (\<not> IsVirtualForwardNode B \<and> LI_isLoopHeader LI (BB B))"

section \<open>Edges into a block, the value of an edge\<close>

fun getInEdges_for :: "ptr list \<Rightarrow> ptr \<Rightarrow> BBEdgeSet \<Rightarrow> error + BBEdgeSet" where
  "getInEdges_for [] PEGBB Edges = Inr Edges"
| "getInEdges_for (Pred # Ps) PEGBB Edges =
     (case create Pred PEGBB of
        Inl e \<Rightarrow> Inl e
      | Inr E \<Rightarrow> getInEdges_for Ps PEGBB (edgeset_insert E Edges))"

definition getInEdges :: "GraphRewrite \<Rightarrow> PEGFunction \<Rightarrow> ptr \<Rightarrow> error + BBEdgeSet" where
  "getInEdges GR PF PEGBB =
     (case block_at PF PEGBB of
        Inl e \<Rightarrow> Inl e
      | Inr B \<Rightarrow>
          if IsEntry B then
            (case RootEdge GR of None \<Rightarrow> Inl AssertFailed | Some R \<Rightarrow> Inr (edgeset_insert R []))
          else getInEdges_for (Predecessors PF PEGBB) PEGBB [])"

type_synonym ValueFn = "BBEdge \<Rightarrow> error + ptr"

definition createValueFnGetEdgeSource :: "BBEdge \<Rightarrow> ValueFn" where
  "createValueFnGetEdgeSource R = (\<lambda>E.
     if edge_eq E R then (if getDest E = nullptr then Inl AssertFailed else Inr (getDest E))
     else (case getSource E of
             None \<Rightarrow> Inl AssertFailed
           | Some S \<Rightarrow> if S = nullptr then Inl AssertFailed else Inr S))"

definition getConditionNodeFor :: "GraphRewrite \<Rightarrow> ptr \<Rightarrow> error + ptr" where
  "getConditionNodeFor GR PEGBB =
     (case CondMap GR PEGBB of None \<Rightarrow> Inl FatalError | Some C \<Rightarrow> Inr C)"

section \<open>Reachability from an edge\<close>

text \<open>
  \<open>filterSet(In, Predicate)\<close>; the predicate may stop the pass or not return.
\<close>

fun filterSet ::
  "BBEdgeSet \<Rightarrow> (BBEdge \<Rightarrow> (error + bool) option) \<Rightarrow> BBEdgeSet \<Rightarrow> (error + BBEdgeSet) option" where
  "filterSet [] Predicate S = Some (Inr S)"
| "filterSet (V # Vs) Predicate S =
     (case Predicate V of
        None \<Rightarrow> None
      | Some (Inl e) \<Rightarrow> Some (Inl e)
      | Some (Inr b) \<Rightarrow> filterSet Vs Predicate (if b then edgeset_insert V S else S))"

text \<open>
  Modelled from the spec: the breadth-first iterator is LLVM's and the graph traits of
  \<open>PEGBasicBlock\<close> are declared in \<open>GraphRewrite.h\<close>; the traversal is over the
  successors in the APEG. \<open>bf_visited\<close> is the set \<open>Visited\<close> that
  \<open>isReachableFromEdge\<close> fills from \<open>bf_begin\<close> to \<open>bf_end\<close>: the blocks a walk along
  the successors reaches from the start, the start included. Only the set is used, not
  the order of the walk. The walk does not end on a graph with infinitely many blocks,
  and then there is no set.
\<close>

definition bf_visited :: "PEGFunction \<Rightarrow> ptr \<Rightarrow> ptr set option" where
  "bf_visited PF Start = map_option snd (rtrancl_while (\<lambda>_. True) (Successors PF) Start)"

definition isReachableFromEdge :: "PEGFunction \<Rightarrow> BBEdge \<Rightarrow> BBEdge \<Rightarrow> (error + bool) option" where
  "isReachableFromEdge PF SourceE DestE =
     (if edge_eq SourceE DestE then Some (Inr True)
      else if Some (getDest SourceE) = getSource DestE then Some (Inr True)
      else (case bf_visited PF (getDest SourceE) of
              None \<Rightarrow> None
            | Some Visited \<Rightarrow>
                (case getSource DestE of
                   None \<Rightarrow> Some (Inl AssertFailed)
                 | Some S \<Rightarrow> Some (Inr (S \<in> Visited)))))"

section \<open>The decide node\<close>

text \<open>
  \<open>getTrueFalseSuccessors(BB)\<close>: the block has no unique successor, its terminator
  is a conditional branch.
\<close>

definition getTrueFalseSuccessors :: "Declared \<Rightarrow> PEGFunction \<Rightarrow> ptr \<Rightarrow> error + ptr \<times> ptr" where
  "getTrueFalseSuccessors H PF PEGBB =
     (if PEGBasicBlock_getUniqueSuccessor H PF PEGBB \<noteq> nullptr then Inl AssertFailed
      else (case PEGBasicBlock_getTerminator H PF PEGBB of
              OtherTerminator \<Rightarrow> Inl AssertFailed
            | BranchInst c \<Rightarrow>
                if \<not> c then Inl AssertFailed
                else Inr (PEGBasicBlock_getTrueFalseSuccessors H PF PEGBB)))"

text \<open>
  The local function \<open>getCommonMappedPEGNode\<close> of \<open>makeDecideNode\<close>: the node all
  edges are mapped to, or null when two edges differ.
\<close>

fun getCommonMappedPEGNode_for :: "ValueFn \<Rightarrow> BBEdgeSet \<Rightarrow> ptr \<Rightarrow> error + ptr" where
  "getCommonMappedPEGNode_for VF [] CommonNode = Inr CommonNode"
| "getCommonMappedPEGNode_for VF (E # Es) CommonNode =
     (case VF E of
        Inl e \<Rightarrow> Inl e
      | Inr v \<Rightarrow>
          if CommonNode = nullptr then getCommonMappedPEGNode_for VF Es v
          else if CommonNode \<noteq> v then Inr nullptr
          else getCommonMappedPEGNode_for VF Es CommonNode)"

definition getCommonMappedPEGNode :: "ValueFn \<Rightarrow> BBEdgeSet \<Rightarrow> error + ptr" where
  "getCommonMappedPEGNode VF In = getCommonMappedPEGNode_for VF In nullptr"

text \<open>The predicate of the two partitions: the edge is reachable from \<open>CommonDom \<rightarrow> Succ\<close>.\<close>

definition reachable_from_succ :: "PEGFunction \<Rightarrow> ptr \<Rightarrow> ptr \<Rightarrow> BBEdge \<Rightarrow> (error + bool) option" where
  "reachable_from_succ PF CommonDom Succ E =
     (case create CommonDom Succ of
        Inl e \<Rightarrow> Some (Inl e)
      | Inr SuccEdge \<Rightarrow> isReachableFromEdge PF SuccEdge E)"

text \<open>
  \<open>GraphRewrite::makeDecideNode(Source, In, VF, Outer)\<close>. The first argument bounds the
  depth of the recursion: the result is \<open>None\<close> when the bound is reached, \<open>Some (Inl e)\<close>
  when the pass stops with \<open>e\<close>, and \<open>Some (Inr (N, PF'))\<close> when the call returns the
  node \<open>N\<close>, with the PEG function as the call leaves it. In the branch for a common
  dominator inside a loop that \<open>Outer\<close> does not hold, the recursive call is followed
  by \<open>assert(false)\<close>.
\<close>

fun makeDecideNode ::
  "nat \<Rightarrow> Declared \<Rightarrow> GraphRewrite \<Rightarrow> PEGFunction \<Rightarrow> BBEdge \<Rightarrow> BBEdgeSet \<Rightarrow> ValueFn \<Rightarrow> ConstLoopSet
     \<Rightarrow> (error + ptr \<times> PEGFunction) option" where
  "makeDecideNode 0 H GR PF SourceE In VF Outer = None"
| "makeDecideNode (Suc n) H GR PF SourceE In VF Outer =
     (case findCommonDominator (PEGDT GR) In of
        Inl e \<Rightarrow> Some (Inl e)
      | Inr CommonDom \<Rightarrow>
     (case block_at PF CommonDom of
        Inl e \<Rightarrow> Some (Inl e)
      | Inr CD \<Rightarrow>
     if isSubset (makeConstLoopSet (SurroundingLoop CD)) Outer then
       (case getCommonMappedPEGNode VF In of
          Inl e \<Rightarrow> Some (Inl e)
        | Inr Common \<Rightarrow>
       if Common \<noteq> nullptr then Some (Inr (Common, PF))
       else if \<not> 1 < length In then Some (Inl AssertFailed)
       else
       (case getTrueFalseSuccessors H PF CommonDom of
          Inl e \<Rightarrow> Some (Inl e)
        | Inr (TrueBB, FalseBB) \<Rightarrow>
       (case block_at PF TrueBB of
          Inl e \<Rightarrow> Some (Inl e)
        | Inr _ \<Rightarrow>
       (case block_at PF FalseBB of
          Inl e \<Rightarrow> Some (Inl e)
        | Inr _ \<Rightarrow>
       (case filterSet In (reachable_from_succ PF CommonDom TrueBB) [] of
          None \<Rightarrow> None
        | Some (Inl e) \<Rightarrow> Some (Inl e)
        | Some (Inr TrueEdges) \<Rightarrow>
       (case filterSet In (reachable_from_succ PF CommonDom FalseBB) [] of
          None \<Rightarrow> None
        | Some (Inl e) \<Rightarrow> Some (Inl e)
        | Some (Inr FalseEdges) \<Rightarrow>
       (case create CommonDom TrueBB of
          Inl e \<Rightarrow> Some (Inl e)
        | Inr TrueEdge \<Rightarrow>
       (case makeDecideNode n H GR PF TrueEdge TrueEdges VF Outer of
          None \<Rightarrow> None
        | Some (Inl e) \<Rightarrow> Some (Inl e)
        | Some (Inr (TrueNode, PF1)) \<Rightarrow>
       (case create CommonDom FalseBB of
          Inl e \<Rightarrow> Some (Inl e)
        | Inr FalseEdge \<Rightarrow>
       (case makeDecideNode n H GR PF1 FalseEdge FalseEdges VF Outer of
          None \<Rightarrow> None
        | Some (Inl e) \<Rightarrow> Some (Inl e)
        | Some (Inr (FalseNode, PF2)) \<Rightarrow>
       (case getConditionNodeFor GR CommonDom of
          Inl e \<Rightarrow> Some (Inl e)
        | Inr Condition \<Rightarrow>
            Some (Inr (new_node (PEGNK_Phi Condition TrueNode FalseNode) PF2)))))))))))))
     else
       (case getOutermostLoopNotInLoop Outer (makeConstLoopSet (SurroundingLoop CD)) of
          Inl e \<Rightarrow> Some (Inl e)
        | Inr LNew \<Rightarrow>
       (case makeDecideNode n H GR PF SourceE In VF (loopset_insert LNew Outer) of
          None \<Rightarrow> None
        | Some (Inl e) \<Rightarrow> Some (Inl e)
        | Some (Inr Val) \<Rightarrow> Some (Inl AssertFailed)))))"

section \<open>The inputs of a block\<close>

text \<open>
  \<open>GraphRewrite::computeInputs(BB)\<close>. The first argument bounds the depth of its own
  recursion (on the virtual forward node of a loop header), the second one the depth of
  \<open>makeDecideNode\<close>.
\<close>

fun computeInputs ::
  "nat \<Rightarrow> nat \<Rightarrow> Declared \<Rightarrow> LoopInfo \<Rightarrow> GraphRewrite \<Rightarrow> PEGFunction \<Rightarrow> ptr
     \<Rightarrow> (error + ptr \<times> PEGFunction) option" where
  "computeInputs 0 m H LI GR PF PEGBB = None"
| "computeInputs (Suc k) m H LI GR PF PEGBB =
     (if PEGBB = nullptr then Some (Inl AssertFailed)
      else
     (case block_at PF PEGBB of
        Inl e \<Rightarrow> Some (Inl e)
      | Inr B \<Rightarrow>
     if IsEntry B then Some (Inl AssertFailed)
     else
     (case getInEdges GR PF PEGBB of
        Inl e \<Rightarrow> Some (Inl e)
      | Inr In \<Rightarrow>
     (case RootEdge GR of
        None \<Rightarrow> Some (Inl AssertFailed)
      | Some R \<Rightarrow>
     (case makeDecideNode m H GR PF R In (createValueFnGetEdgeSource R) (getLoopSet B) of
        None \<Rightarrow> None
      | Some (Inl e) \<Rightarrow> Some (Inl e)
      | Some (Inr (Decider, PF1)) \<Rightarrow>
     if isLoopHeader LI B then
       (case computeInputs k m H LI GR PF1 (VirtualForwardNode B) of
          None \<Rightarrow> None
        | Some (Inl e) \<Rightarrow> Some (Inl e)
        | Some (Inr (Rec, PF2)) \<Rightarrow> Some (Inr (new_node (PEGNK_Theta Decider Rec) PF2)))
     else Some (Inr (Decider, PF1)))))))"

section \<open>Building the APEG\<close>

text \<open>
  The first loop of \<open>createAPEG\<close>, over the blocks of the function: the virtual forward
  node of a loop header, the concrete node, the condition node, the three maps and the
  root edge. \<open>VirtualForwardMap\<close> is local to \<open>createAPEG\<close>.
\<close>

type_synonym VirtualForwardMap = "ptr \<Rightarrow> ptr option"

definition getEntryBlock :: "Function \<Rightarrow> bbref option" where
  "getEntryBlock Fn = (case blocks Fn of [] \<Rightarrow> None | E # _ \<Rightarrow> Some E)"

definition createAPEG_block ::
  "LoopInfo \<Rightarrow> Function \<Rightarrow> bbref \<Rightarrow> GraphRewrite \<times> VirtualForwardMap \<times> PEGFunction
     \<Rightarrow> error + GraphRewrite \<times> VirtualForwardMap \<times> PEGFunction" where
  "createAPEG_block LI Fn B St =
     (case St of (GR, VFM, PF) \<Rightarrow>
     (case (if LI_isLoopHeader LI B then new_PEGBasicBlock PF B None False nullptr True
            else Inr (nullptr, PF)) of
        Inl e \<Rightarrow> Inl e
      | Inr (VFNode, PF1) \<Rightarrow>
     (case new_PEGBasicBlock PF1 B (getLoopFor LI B) (Some B = getEntryBlock Fn) VFNode False of
        Inl e \<Rightarrow> Inl e
      | Inr (PEGBB, PF2) \<Rightarrow>
     (case new_node (PEGNK_Cond PEGBB) PF2 of (C, PF3) \<Rightarrow>
     if Some B = getEntryBlock Fn then
       (case makeEntryEdge PEGBB of
          Inl e \<Rightarrow> Inl e
        | Inr R \<Rightarrow>
            Inr (GR\<lparr>BBMap := bbmap_set B PEGBB (BBMap GR), CondMap := (CondMap GR)(PEGBB \<mapsto> C),
                    RootEdge := Some R\<rparr>,
                 VFM(PEGBB \<mapsto> VFNode), PF3))
     else
       Inr (GR\<lparr>BBMap := bbmap_set B PEGBB (BBMap GR), CondMap := (CondMap GR)(PEGBB \<mapsto> C)\<rparr>,
            VFM(PEGBB \<mapsto> VFNode), PF3)))))"

fun createAPEG_blocks ::
  "LoopInfo \<Rightarrow> Function \<Rightarrow> bbref list \<Rightarrow> GraphRewrite \<times> VirtualForwardMap \<times> PEGFunction
     \<Rightarrow> error + GraphRewrite \<times> VirtualForwardMap \<times> PEGFunction" where
  "createAPEG_blocks LI Fn [] St = Inr St"
| "createAPEG_blocks LI Fn (B # Bs) St =
     (case createAPEG_block LI Fn B St of
        Inl e \<Rightarrow> Inl e
      | Inr St1 \<Rightarrow> createAPEG_blocks LI Fn Bs St1)"

text \<open>
  The static function \<open>isLoopLatch(LI, L, Check)\<close>: the innermost loop of \<open>Check\<close> has
  to be \<open>L\<close> itself.
\<close>

definition isLoopLatch :: "LoopInfo \<Rightarrow> loop option \<Rightarrow> bbref \<Rightarrow> error + bool" where
  "isLoopLatch LI L Check =
     (case L of
        None \<Rightarrow> Inl AssertFailed
      | Some L1 \<Rightarrow>
          (case getLoopFor LI Check of
             None \<Rightarrow> Inr False
           | Some LCheck \<Rightarrow>
               if LCheck \<noteq> L1 then Inr False else Inr (Loop_isLoopLatch LI L1 Check)))"

text \<open>
  The second loop of \<open>createAPEG\<close>, over the entries of \<open>BBMap\<close> and the predecessors
  of each block. \<open>edge_target\<close> is the block the edge from a predecessor is attached
  to: the virtual forward node for a latch of a loop header, the block itself otherwise.
\<close>

definition edge_target ::
  "LoopInfo \<Rightarrow> VirtualForwardMap \<Rightarrow> PEGFunction \<Rightarrow> bbref \<Rightarrow> ptr \<Rightarrow> bbref \<Rightarrow> error + ptr" where
  "edge_target LI VFM PF B PEGBB PredBB =
     (if LI_isLoopHeader LI B then
        (case block_at PF PEGBB of
           Inl e \<Rightarrow> Inl e
         | Inr Blk \<Rightarrow>
             (case isLoopLatch LI (SurroundingLoop Blk) PredBB of
                Inl e \<Rightarrow> Inl e
              | Inr latch \<Rightarrow>
                  if latch then
                    (case VFM PEGBB of
                       None \<Rightarrow> Inl BadPointer
                     | Some V \<Rightarrow> if V = nullptr then Inl AssertFailed else Inr V)
                  else Inr PEGBB))
      else Inr PEGBB)"

fun createAPEG_preds ::
  "LoopInfo \<Rightarrow> GraphRewrite \<Rightarrow> VirtualForwardMap \<Rightarrow> bbref \<Rightarrow> ptr \<Rightarrow> bbref list \<Rightarrow> PEGFunction
     \<Rightarrow> error + PEGFunction" where
  "createAPEG_preds LI GR VFM B PEGBB [] PF = Inr PF"
| "createAPEG_preds LI GR VFM B PEGBB (PredBB # Ps) PF =
     (case map_of (BBMap GR) PredBB of
        None \<Rightarrow> Inl BadPointer
      | Some PredPEGBB \<Rightarrow>
          (case edge_target LI VFM PF B PEGBB PredBB of
             Inl e \<Rightarrow> Inl e
           | Inr T \<Rightarrow> createAPEG_preds LI GR VFM B PEGBB Ps (addEdge PredPEGBB T PF)))"

fun createAPEG_edges ::
  "LoopInfo \<Rightarrow> Function \<Rightarrow> GraphRewrite \<Rightarrow> VirtualForwardMap \<Rightarrow> (bbref \<times> ptr) list \<Rightarrow> PEGFunction
     \<Rightarrow> error + PEGFunction" where
  "createAPEG_edges LI Fn GR VFM [] PF = Inr PF"
| "createAPEG_edges LI Fn GR VFM (It # M) PF =
     (case createAPEG_preds LI GR VFM (fst It) (snd It) (predecessors Fn (fst It)) PF of
        Inl e \<Rightarrow> Inl e
      | Inr PF1 \<Rightarrow> createAPEG_edges LI Fn GR VFM M PF1)"

text \<open>
  The third loop of \<open>createAPEG\<close>: the child of every block but the entry block.
\<close>

fun createAPEG_children ::
  "nat \<Rightarrow> nat \<Rightarrow> Declared \<Rightarrow> LoopInfo \<Rightarrow> GraphRewrite \<Rightarrow> (bbref \<times> ptr) list \<Rightarrow> PEGFunction
     \<Rightarrow> (error + PEGFunction) option" where
  "createAPEG_children k m H LI GR [] PF = Some (Inr PF)"
| "createAPEG_children k m H LI GR (It # M) PF =
     (case block_at PF (snd It) of
        Inl e \<Rightarrow> Some (Inl e)
      | Inr Blk \<Rightarrow>
          if \<not> IsEntry Blk then
            (case computeInputs k m H LI GR PF (snd It) of
               None \<Rightarrow> None
             | Some (Inl e) \<Rightarrow> Some (Inl e)
             | Some (Inr (C, PF1)) \<Rightarrow>
                 createAPEG_children k m H LI GR M
                   (if C \<noteq> nullptr then setChild (snd It) C PF1 else PF1))
          else createAPEG_children k m H LI GR M PF)"

text \<open>
  The APEG itself: what the first two loops of \<open>createAPEG\<close> build, the blocks with
  their conditions and the edges between the blocks.
\<close>

definition createAPEG_graph ::
  "LoopInfo \<Rightarrow> Function \<Rightarrow> GraphRewrite \<Rightarrow> error + GraphRewrite \<times> PEGFunction" where
  "createAPEG_graph LI Fn GR =
     (case createAPEG_blocks LI Fn (blocks Fn) (GR, Map.empty, new_PEGFunction) of
        Inl e \<Rightarrow> Inl e
      | Inr (GR1, VFM, PF1) \<Rightarrow>
          (case createAPEG_edges LI Fn GR1 VFM (BBMap GR1) PF1 of
             Inl e \<Rightarrow> Inl e
           | Inr PF2 \<Rightarrow> Inr (GR1, PF2)))"

text \<open>
  \<open>GraphRewrite::createAPEG(F)\<close>: the APEG, the dominator tree of the APEG
  recalculated, and the third loop. The result is the PEG function and the pass object
  as the call leaves it. The two bounds are those of \<open>computeInputs\<close>.
\<close>

definition createAPEG ::
  "nat \<Rightarrow> nat \<Rightarrow> Declared \<Rightarrow> LoopInfo \<Rightarrow> GraphRewrite \<Rightarrow> Function
     \<Rightarrow> (error + PEGFunction \<times> GraphRewrite) option" where
  "createAPEG k m H LI GR Fn =
     (case createAPEG_graph LI Fn GR of
        Inl e \<Rightarrow> Some (Inl e)
      | Inr (GR1, PF2) \<Rightarrow>
          (case createAPEG_children k m H LI (GR1\<lparr>PEGDT := PEGDT_recalculate H PF2\<rparr>)
                  (BBMap GR1) PF2 of
             None \<Rightarrow> None
           | Some (Inl e) \<Rightarrow> Some (Inl e)
           | Some (Inr PF3) \<Rightarrow> Some (Inr (PF3, GR1\<lparr>PEGDT := PEGDT_recalculate H PF2\<rparr>))))"

section \<open>The pass\<close>

text \<open>
  \<open>GraphRewrite::run(F)\<close>. Writing the dot files leaves no trace in the pass object or
  in the PEG function and is left out. The function and the loop analysis are
  arguments that are read only. \<open>runOnFunction\<close> makes a new pass object and runs it.
\<close>

definition run ::
  "nat \<Rightarrow> nat \<Rightarrow> Declared \<Rightarrow> LoopInfo \<Rightarrow> GraphRewrite \<Rightarrow> Function
     \<Rightarrow> (error + bool \<times> GraphRewrite) option" where
  "run k m H LI GR Fn =
     (case createAPEG k m H LI (GR\<lparr>F := Some Fn\<rparr>) Fn of
        None \<Rightarrow> None
      | Some (Inl e) \<Rightarrow> Some (Inl e)
      | Some (Inr (PEGF, GR1)) \<Rightarrow> Some (Inr (False, GR1\<lparr>RootEdge := None, F := None\<rparr>)))"

definition new_GraphRewrite :: GraphRewrite where
  "new_GraphRewrite =
     \<lparr>PEGDT = (\<lambda>_ _. nullptr), RootEdge = None, F = None, BBMap = [], CondMap = Map.empty\<rparr>"

definition runOnFunction ::
  "nat \<Rightarrow> nat \<Rightarrow> Declared \<Rightarrow> LoopInfo \<Rightarrow> Function \<Rightarrow> (error + bool) option" where
  "runOnFunction k m H LI Fn =
     (case run k m H LI new_GraphRewrite Fn of
        None \<Rightarrow> None
      | Some (Inl e) \<Rightarrow> Some (Inl e)
      | Some (Inr (Changed, GR)) \<Rightarrow> Some (Inr Changed))"

section \<open>Notions the properties are stated with\<close>

text \<open>The edges of the APEG, as a relation on block addresses.\<close>

definition apeg_edges :: "PEGFunction \<Rightarrow> (ptr \<times> ptr) set" where
  "apeg_edges PF = {(x, y). y \<in> set (Successors PF x)}"


text \<open>
  A PEG function grown by phi and theta nodes only: the nodes it had keep their
  addresses and the edges of the APEG stay.
\<close>

definition value_node :: "PEGNode \<Rightarrow> bool" where
  "value_node N = (case N of PEGNK_Phi c t f \<Rightarrow> True | PEGNK_Theta b r \<Rightarrow> True | _ \<Rightarrow> False)"

definition extends :: "PEGFunction \<Rightarrow> PEGFunction \<Rightarrow> bool" where
  "extends PF PF' =
     (\<exists>ns. NodesList PF' = NodesList PF @ ns \<and> list_all value_node ns \<and>
        Successors PF' = Successors PF \<and> Predecessors PF' = Predecessors PF)"

text \<open>
  What the first loop of \<open>createAPEG\<close> keeps true of \<open>BBMap\<close>: an entry for a source
  block leads to a concrete block made for it, with the loop of the source block, and
  \<open>VirtualForwardMap\<close> holds its virtual forward node, which is a block marked as
  one for a loop header and null otherwise.
\<close>

definition bbmap_inv :: "LoopInfo \<Rightarrow> GraphRewrite \<Rightarrow> VirtualForwardMap \<Rightarrow> PEGFunction \<Rightarrow> bool" where
  "bbmap_inv LI GR VFM PF =
     (\<forall>B p. (B, p) \<in> set (BBMap GR) \<longrightarrow>
        (\<exists>Blk. block_at PF p = Inr Blk \<and> BB Blk = B \<and> \<not> IsVirtualForwardNode Blk \<and>
           SurroundingLoop Blk = getLoopFor LI B \<and> VFM p = Some (VirtualForwardNode Blk) \<and>
           (if LI_isLoopHeader LI B
            then \<exists>V. block_at PF (VirtualForwardNode Blk) = Inr V \<and> IsVirtualForwardNode V
            else VirtualForwardNode Blk = nullptr)))"

text \<open>
  The condition nodes of a PEG function: none points past the last node, a concrete
  block has one condition node and a virtual forward node has none.
\<close>

definition cond_inv :: "PEGFunction \<Rightarrow> bool" where
  "cond_inv PF =
     ((\<forall>q. PEGNK_Cond q \<in> set (NodesList PF) \<longrightarrow> q \<le> length (NodesList PF)) \<and>
      (\<forall>p Blk. block_at PF p = Inr Blk \<longrightarrow>
         count_list (NodesList PF) (PEGNK_Cond p) = (if IsVirtualForwardNode Blk then 0 else 1)))"

section \<open>Example inputs\<close>

text \<open>
  Three nested loops, the innermost first; a block in no loop, in a loop nested once and
  in a loop nested twice has the loop set of no, one and two loops.
\<close>

definition ex_L3 :: loop where
  "ex_L3 = Loop 30 None"

definition ex_L2 :: loop where
  "ex_L2 = Loop 20 (Some ex_L3)"

definition ex_L1 :: loop where
  "ex_L1 = Loop 10 (Some ex_L2)"

definition ex_Declared :: Declared where
  "ex_Declared =
     \<lparr>PEGBasicBlock_getUniqueSuccessor = (\<lambda>PF p. nullptr),
      PEGBasicBlock_getTerminator = (\<lambda>PF p. BranchInst True),
      PEGBasicBlock_getTrueFalseSuccessors = (\<lambda>PF p. (3, 5)),
      PEGDT_recalculate = (\<lambda>PF a b. if a = b then a else 1)\<rparr>"

definition ex_block :: "bbref \<Rightarrow> loop option \<Rightarrow> PEGNode" where
  "ex_block B L =
     PEGNK_BB \<lparr>BB = B, SurroundingLoop = L, IsEntry = False,
       VirtualForwardNode = nullptr, IsVirtualForwardNode = False\<rparr>"

text \<open>Two blocks and the edge \<open>1 \<rightarrow> 2\<close>; the first block lies in the loop \<open>L\<close>.\<close>

definition ex_pair :: "loop option \<Rightarrow> PEGFunction" where
  "ex_pair L =
     \<lparr>NodesList = [ex_block 1 L, ex_block 2 None],
      Predecessors = (\<lambda>_. [])(2 := [1]), Successors = (\<lambda>_. [])(1 := [2]),
      Child = (\<lambda>_. nullptr)\<rparr>"






definition ex_LI :: LoopInfo where
  "ex_LI =
     \<lparr>getLoopFor = (\<lambda>_. None)(2 := Some (Loop 100 None), 3 := Some (Loop 100 None)),
      LI_isLoopHeader = (\<lambda>B. B = 2), Loop_isLoopLatch = (\<lambda>L B. B = 3)\<rparr>"

text \<open>Source functions: blocks are named by their addresses, the first is the entry.\<close>

definition ex_noLI :: LoopInfo where
  "ex_noLI =
     \<lparr>getLoopFor = (\<lambda>_. None), LI_isLoopHeader = (\<lambda>_. False),
      Loop_isLoopLatch = (\<lambda>_ _. False)\<rparr>"

text \<open>A straight line \<open>1 \<rightarrow> 2\<close>: block 1 ends in an unconditional branch.\<close>

definition ex_straight :: Function where
  "ex_straight =
     \<lparr>blocks = [1, 2], predecessors = (\<lambda>_. [])(2 := [1]),
      getTerminator = (\<lambda>_. OtherTerminator)(1 := BranchInst False)\<rparr>"

text \<open>Two blocks and no branch: block 2 has no predecessor.\<close>

definition ex_unreachable :: Function where
  "ex_unreachable =
     \<lparr>blocks = [1, 2], predecessors = (\<lambda>_. []), getTerminator = (\<lambda>_. OtherTerminator)\<rparr>"

text \<open>The loop of \<open>ex_LI\<close>: \<open>1 \<rightarrow> 2\<close>, the header 2 and its latch 3.\<close>

definition ex_loopF :: Function where
  "ex_loopF =
     \<lparr>blocks = [1, 2, 3], predecessors = (\<lambda>_. [])(2 := [1, 3], 3 := [2]),
      getTerminator = (\<lambda>_. BranchInst False)(3 := BranchInst True)\<rparr>"

text \<open>
  A loop with header 2 and, nested in it, a loop with header 3. Block 4 lies in the
  inner loop and branches to both headers: it is a latch of both loops.
\<close>

definition ex_nest :: Function where
  "ex_nest =
     \<lparr>blocks = [1, 2, 3, 4],
      predecessors = (\<lambda>_. [])(2 := [1, 4], 3 := [2, 4], 4 := [3]),
      getTerminator = (\<lambda>_. BranchInst False)(4 := BranchInst True)\<rparr>"

definition ex_nestLI :: LoopInfo where
  "ex_nestLI =
     \<lparr>getLoopFor = (\<lambda>_. None)(2 := Some (Loop 100 None),
        3 := Some (Loop 50 (Some (Loop 100 None))),
        4 := Some (Loop 50 (Some (Loop 100 None)))),
      LI_isLoopHeader = (\<lambda>B. B = 2 \<or> B = 3), Loop_isLoopLatch = (\<lambda>L B. B = 4)\<rparr>"

text \<open>
  Three nested loops with the headers 3, 4 and 5 and the latches 8, 7 and 6. Block 6
  lies in the innermost loop and also branches to block 2, which lies in no loop.
\<close>

definition ex_nest3 :: Function where
  "ex_nest3 =
     \<lparr>blocks = [1, 2, 3, 4, 5, 6, 7, 8],
      predecessors = (\<lambda>_. [])(2 := [6], 3 := [1, 8], 4 := [3, 7], 5 := [4, 6], 6 := [5],
        7 := [5], 8 := [4]),
      getTerminator = (\<lambda>_. BranchInst True)(1 := BranchInst False, 2 := OtherTerminator,
        3 := BranchInst False, 7 := BranchInst False, 8 := BranchInst False)\<rparr>"

definition ex_nest3LI :: LoopInfo where
  "ex_nest3LI =
     \<lparr>getLoopFor = (\<lambda>_. None)(3 := Some ex_L3, 8 := Some ex_L3, 4 := Some ex_L2,
        7 := Some ex_L2, 5 := Some ex_L1, 6 := Some ex_L1),
      LI_isLoopHeader = (\<lambda>B. B = 3 \<or> B = 4 \<or> B = 5),
      Loop_isLoopLatch = (\<lambda>L B. (L = ex_L1 \<and> B = 6) \<or> (L = ex_L2 \<and> B = 7) \<or>
        (L = ex_L3 \<and> B = 8))\<rparr>"

section \<open>Properties of edges\<close>


lemma edge_less_irrefl: "\<not> edge_less a a"
  by (simp add: edge_less_def)

lemma edge_incomparable_iff: "\<not> edge_less a b \<and> \<not> edge_less b a \<longleftrightarrow> a = b"
  by (auto simp: edge_less_def)

text \<open>
  C8. Equality of edges is equality of both pointers and \<open>operator<\<close> is irreflexive,
  but it is not the comparison of the pairs and not asymmetric: the edges
  \<open>1 \<rightarrow> 2\<close> and \<open>2 \<rightarrow> 1\<close> are each less than the other.
\<close>

theorem BBEdge_less_both_ways:
  "edge_less \<lparr>Source = 1, Dest = 2\<rparr> \<lparr>Source = 2, Dest = 1\<rparr> \<and>
   edge_less \<lparr>Source = 2, Dest = 1\<rparr> \<lparr>Source = 1, Dest = 2\<rparr> \<and>
   \<not> pair_less \<lparr>Source = 1, Dest = 2\<rparr> \<lparr>Source = 2, Dest = 1\<rparr> \<and>
   create 1 2 = Inr \<lparr>Source = 1, Dest = 2\<rparr> \<and> create 2 1 = Inr \<lparr>Source = 2, Dest = 1\<rparr>"
  by (simp add: edge_less_def pair_less_def create_def)


section \<open>The loop added in the branch for an inner loop\<close>

text \<open>
  C2. For a block in the innermost of three nested loops the loop set is
  \<open>[ex_L1, ex_L2]\<close>. With no loop in \<open>Outer\<close> yet, \<open>getOutermostLoopNotInLoop\<close>
  returns \<open>ex_L1\<close>, the first loop of the set, while the outermost loop of the set that
  is not in \<open>Outer\<close> is \<open>ex_L2\<close>.
\<close>

theorem getOutermostLoopNotInLoop_first:
  "makeConstLoopSet (Some ex_L1) = [ex_L1, ex_L2] \<and>
   getOutermostLoopNotInLoop [] (makeConstLoopSet (Some ex_L1)) = Inr ex_L1 \<and>
   is_outermost_not_in [] (makeConstLoopSet (Some ex_L1)) ex_L2 \<and>
   \<not> is_outermost_not_in [] (makeConstLoopSet (Some ex_L1)) ex_L1"
  by (simp add: getOutermostLoopNotInLoop_def isSubset_def outermost_body_def
      is_outermost_not_in_def ex_L1_def ex_L2_def ex_L3_def)

section \<open>The common dominator\<close>

lemma findCommonDominator_for_fold:
  assumes "\<forall>E \<in> set Es. Source E \<noteq> nullptr"
    and "\<And>a b. a \<noteq> nullptr \<Longrightarrow> b \<noteq> nullptr \<Longrightarrow> ncd a b \<noteq> nullptr"
    and "D \<noteq> nullptr"
  shows "findCommonDominator_for ncd Es D = Inr (foldl ncd D (map edge_block Es))"
  using assms
  by (induction Es arbitrary: D) (auto simp: getSource_def edge_block_def)

lemma findCommonDominator_nonempty: "findCommonDominator ncd In = Inr D \<Longrightarrow> In \<noteq> []"
  by (auto simp: findCommonDominator_def split: if_splits)

text \<open>
  C6, as the code has it. For a non-empty edge set in which every edge has a source, and
  a nearest common dominator that is a block whenever its arguments are,
  \<open>findCommonDominator\<close> returns the fold of the nearest common dominator over the
  sources of the edges.
\<close>

theorem findCommonDominator_fold:
  assumes "In \<noteq> []" "\<forall>E \<in> set In. getSource E \<noteq> None"
    and "\<forall>a b. a \<noteq> nullptr \<and> b \<noteq> nullptr \<longrightarrow> ncd a b \<noteq> nullptr"
  shows "findCommonDominator ncd In = Inr (fold_ncd ncd In)"
proof -
  obtain E Es where In: "In = E # Es" using assms(1) by (cases In) auto
  have src: "Source E \<noteq> nullptr" "\<forall>X \<in> set Es. Source X \<noteq> nullptr"
    using assms(2) by (auto simp: In getSource_def split: if_splits)
  have "findCommonDominator_for ncd Es (Source E) = Inr (foldl ncd (Source E) (map edge_block Es))"
    using src assms(3) by (intro findCommonDominator_for_fold) auto
  then show ?thesis using src(1)
    by (simp add: findCommonDominator_def In fold_ncd_def getSource_def edge_block_def)
qed

theorem findCommonDominator_fold_witness:
  "findCommonDominator (\<lambda>a b. min a b)
     [\<lparr>Source = 3, Dest = 5\<rparr>, \<lparr>Source = 2, Dest = 5\<rparr>, \<lparr>Source = 4, Dest = 5\<rparr>] = Inr 2"
  using findCommonDominator_fold
    [of "[\<lparr>Source = 3, Dest = 5\<rparr>, \<lparr>Source = 2, Dest = 5\<rparr>, \<lparr>Source = 4, Dest = 5\<rparr>]" "\<lambda>a b. min a b"]
  by (simp add: getSource_def fold_ncd_def edge_block_def)

text \<open>
  C6, as the claim states it, fails on the root edge: the fold of the claim gives the
  entry block, \<open>findCommonDominator\<close> reads the absent source and stops.
\<close>

theorem findCommonDominator_root_edge:
  "makeEntryEdge 1 = Inr \<lparr>Source = nullptr, Dest = 1\<rparr> \<and>
   fold_ncd (\<lambda>a b. a) [\<lparr>Source = nullptr, Dest = 1\<rparr>] = 1 \<and>
   findCommonDominator (\<lambda>a b. a) [\<lparr>Source = nullptr, Dest = 1\<rparr>] = Inl AssertFailed \<and>
   findCommonDominator (\<lambda>a b. a) [\<lparr>Source = nullptr, Dest = 1\<rparr>] \<noteq>
     Inr (fold_ncd (\<lambda>a b. a) [\<lparr>Source = nullptr, Dest = 1\<rparr>])"
  by (simp add: makeEntryEdge_def findCommonDominator_def getSource_def fold_ncd_def
      edge_block_def getDest_def)

section \<open>The decide node: collapse and the branch for an inner loop\<close>

lemma getCommonMapped_for_same:
  assumes "\<forall>E \<in> set In. VF E = Inr v" "c = nullptr \<or> c = v"
  shows "getCommonMappedPEGNode_for VF In c = Inr (if In = [] then c else v)"
  using assms by (induction In arbitrary: c) auto

lemma getCommonMapped_same:
  assumes "In \<noteq> []" "\<forall>E \<in> set In. VF E = Inr v"
  shows "getCommonMappedPEGNode VF In = Inr v"
  using getCommonMapped_for_same[OF assms(2), of nullptr] assms(1)
  by (simp add: getCommonMappedPEGNode_def)

lemma makeDecideNode_caseA_collapse:
  assumes "findCommonDominator (PEGDT GR) In = Inr D"
    and "block_at PF D = Inr CD"
    and "isSubset (makeConstLoopSet (SurroundingLoop CD)) Outer"
    and "\<forall>E \<in> set In. VF E = Inr v" and "v \<noteq> nullptr"
  shows "makeDecideNode (Suc n) H GR PF SourceE In VF Outer = Some (Inr (v, PF))"
  using assms getCommonMapped_same[OF findCommonDominator_nonempty[OF assms(1)] assms(4)]
  by simp

text \<open>
  In the branch for an inner loop no call returns a node, whatever the bound on the
  depth: the call stops or does not return.
\<close>

lemma makeDecideNode_caseB:
  assumes "findCommonDominator (PEGDT GR) In = Inr D"
    and "block_at PF D = Inr CD"
    and "\<not> isSubset (makeConstLoopSet (SurroundingLoop CD)) Outer"
  shows "makeDecideNode n H GR PF SourceE In VF Outer \<noteq> Some (Inr R)"
  using assms by (cases n) (auto split: sum.splits option.splits)

lemma ex_fcd: "findCommonDominator (PEGDT new_GraphRewrite) [\<lparr>Source = 1, Dest = 2\<rparr>] = Inr 1"
  by (simp add: findCommonDominator_def getSource_def)

lemma ex_block_at:
  "block_at (ex_pair L) 1 =
     Inr \<lparr>BB = 1, SurroundingLoop = L, IsEntry = False,
       VirtualForwardNode = nullptr, IsVirtualForwardNode = False\<rparr>"
  by (simp add: block_at_def node_at_def ex_pair_def ex_block_def)

text \<open>
  C1, as the code has it. When the common dominator of the edge set is found, its loop
  set is within \<open>Outer\<close>, and the value function maps every edge to the same node,
  which is not null, \<open>makeDecideNode\<close> returns that node and leaves the PEG function
  as it is. A depth of one is enough.
\<close>

theorem makeDecideNode_collapse:
  assumes "findCommonDominator (PEGDT GR) In = Inr D"
    and "block_at PF D = Inr CD"
    and "isSubset (makeConstLoopSet (SurroundingLoop CD)) Outer"
    and "\<forall>E \<in> set In. VF E = Inr v" and "v \<noteq> nullptr"
  shows "makeDecideNode (Suc n) H GR PF SourceE In VF Outer = Some (Inr (v, PF))"
  using assms by (rule makeDecideNode_caseA_collapse)

theorem makeDecideNode_collapse_witness:
  "makeDecideNode 1 ex_Declared new_GraphRewrite (ex_pair None) \<lparr>Source = nullptr, Dest = 1\<rparr>
     [\<lparr>Source = 1, Dest = 2\<rparr>] (createValueFnGetEdgeSource \<lparr>Source = nullptr, Dest = 1\<rparr>) [] =
   Some (Inr (1, ex_pair None))"
  using makeDecideNode_collapse[OF ex_fcd ex_block_at, of None "[]"
      "createValueFnGetEdgeSource \<lparr>Source = nullptr, Dest = 1\<rparr>" 1 0]
  by (simp add: isSubset_def createValueFnGetEdgeSource_def edge_eq_def getSource_def)

text \<open>
  C1, as the claim states it, fails when the loop set of the common dominator is not
  within \<open>Outer\<close>: the value function maps the one edge (and so every edge) to block 1,
  the block lies in a loop nested once, \<open>Outer\<close> is empty. The call stops at
  \<open>assert(false)\<close> after the recursive call has returned the node, and with no bound on
  the depth does it return the node. It fails as well on the edge set of the root edge,
  which the value function of the edge sources maps to the entry block: the call stops
  in \<open>findCommonDominator\<close>.
\<close>

theorem makeDecideNode_collapse_inner_loop:
  "makeDecideNode 2 ex_Declared new_GraphRewrite (ex_pair (Some ex_L2))
      \<lparr>Source = nullptr, Dest = 1\<rparr> [\<lparr>Source = 1, Dest = 2\<rparr>] (\<lambda>E. Inr 1) [] =
     Some (Inl AssertFailed) \<and>
   (\<forall>n. makeDecideNode n ex_Declared new_GraphRewrite (ex_pair (Some ex_L2))
      \<lparr>Source = nullptr, Dest = 1\<rparr> [\<lparr>Source = 1, Dest = 2\<rparr>] (\<lambda>E. Inr 1) [] \<noteq>
     Some (Inr (1, ex_pair (Some ex_L2)))) \<and>
   createValueFnGetEdgeSource \<lparr>Source = nullptr, Dest = 1\<rparr> \<lparr>Source = nullptr, Dest = 1\<rparr> = Inr 1 \<and>
   (\<forall>n. makeDecideNode n ex_Declared new_GraphRewrite (ex_pair None)
      \<lparr>Source = nullptr, Dest = 1\<rparr> [\<lparr>Source = nullptr, Dest = 1\<rparr>]
      (createValueFnGetEdgeSource \<lparr>Source = nullptr, Dest = 1\<rparr>) [] \<noteq>
     Some (Inr (1, ex_pair None)))"
proof -
  have nsub: "\<not> isSubset (makeConstLoopSet (Some ex_L2)) []"
    by (simp add: isSubset_def ex_L2_def ex_L3_def)
  have "\<forall>n. makeDecideNode n ex_Declared new_GraphRewrite (ex_pair (Some ex_L2))
      \<lparr>Source = nullptr, Dest = 1\<rparr> [\<lparr>Source = 1, Dest = 2\<rparr>] (\<lambda>E. Inr 1) [] \<noteq>
     Some (Inr (1, ex_pair (Some ex_L2)))"
    using makeDecideNode_caseB[OF ex_fcd ex_block_at] nsub by simp
  moreover have "makeDecideNode 2 ex_Declared new_GraphRewrite (ex_pair (Some ex_L2))
      \<lparr>Source = nullptr, Dest = 1\<rparr> [\<lparr>Source = 1, Dest = 2\<rparr>] (\<lambda>E. Inr 1) [] =
     Some (Inl AssertFailed)"
  proof -
    have two: "makeDecideNode 2 = makeDecideNode (Suc (Suc 0))"
      by (simp add: numeral_2_eq_2)
    show ?thesis
      by (simp add: two ex_fcd ex_block_at isSubset_def getOutermostLoopNotInLoop_def
          outermost_body_def getCommonMappedPEGNode_def ex_L2_def ex_L3_def del: One_nat_def)
  qed
  moreover have "createValueFnGetEdgeSource \<lparr>Source = nullptr, Dest = 1\<rparr>
      \<lparr>Source = nullptr, Dest = 1\<rparr> = Inr 1"
    by (simp add: createValueFnGetEdgeSource_def edge_eq_def getDest_def)
  moreover have "makeDecideNode n ex_Declared new_GraphRewrite (ex_pair None)
      \<lparr>Source = nullptr, Dest = 1\<rparr> [\<lparr>Source = nullptr, Dest = 1\<rparr>]
      (createValueFnGetEdgeSource \<lparr>Source = nullptr, Dest = 1\<rparr>) [] \<noteq>
     Some (Inr (1, ex_pair None))" for n
    by (cases n) (simp_all add: findCommonDominator_def getSource_def)
  ultimately show ?thesis by blast
qed

text \<open>
  When the loop set of the common dominator holds two loops and \<open>Outer\<close> is empty, the
  first call adds the first loop of the set; every later call finds the second loop
  missing, gets the first loop again and calls itself with the same arguments.
\<close>

lemma makeDecideNode_two_missing:
  assumes "findCommonDominator (PEGDT GR) In = Inr D" "block_at PF D = Inr CD"
    and "makeConstLoopSet (SurroundingLoop CD) = [A, B']" "A \<noteq> B'"
  shows "makeDecideNode n H GR PF S In VF [] = None"
proof -
  have stay: "makeDecideNode n H GR PF S In VF [A] = None" for n
  proof (induction n)
    case 0
    then show ?case by simp
  next
    case (Suc n)
    then show ?case using assms
      by (simp add: isSubset_def getOutermostLoopNotInLoop_def outermost_body_def)
  qed
  show ?thesis using stay[of "n - 1"] assms
    by (cases n) (simp_all add: isSubset_def getOutermostLoopNotInLoop_def outermost_body_def)
qed

section \<open>The two partitions\<close>


text \<open>The walk ends when only finitely many blocks can be reached.\<close>

lemma bf_visited_finite:
  assumes "finite ((apeg_edges PF)\<^sup>* `` {X})"
  shows "\<exists>V. bf_visited PF X = Some V"
  using rtrancl_while_finite_Some[of "Successors PF" X "\<lambda>_. True"] assms
  by (auto simp: bf_visited_def apeg_edges_def)








section \<open>Nodes are only added\<close>

lemma extends_refl: "extends PF PF"
  by (auto simp: extends_def)

lemma extends_trans: "extends A B \<Longrightarrow> extends B C \<Longrightarrow> extends A C"
  by (auto simp: extends_def)

lemma extends_new_Phi: "extends PF (snd (new_node (PEGNK_Phi c t f) PF))"
  by (auto simp: extends_def new_node_def value_node_def)

lemma extends_new_Theta: "extends PF (snd (new_node (PEGNK_Theta b r) PF))"
  by (auto simp: extends_def new_node_def value_node_def)

lemma extends_setChild: "extends PF (setChild p c PF)"
  by (auto simp: extends_def setChild_def)

lemma extends_block_at:
  assumes "extends PF PF'" "block_at PF p = Inr B"
  shows "block_at PF' p = Inr B"
  using assms
  by (auto simp: extends_def block_at_def node_at_def nth_append
      split: option.splits PEGNode.splits if_splits)

lemma makeDecideNode_inv:
  assumes "makeDecideNode (Suc n) H GR PF S In VF Outer = Some (Inr (N, PF'))"
  shows "PF' = PF \<or>
    (\<exists>TE TEs FE FEs TN PF1 FN PF2 C.
       makeDecideNode n H GR PF TE TEs VF Outer = Some (Inr (TN, PF1)) \<and>
       makeDecideNode n H GR PF1 FE FEs VF Outer = Some (Inr (FN, PF2)) \<and>
       new_node (PEGNK_Phi C TN FN) PF2 = (N, PF'))"
  using assms
  by (auto split: sum.splits option.splits if_splits prod.splits; blast)

lemma makeDecideNode_extends:
  "makeDecideNode n H GR PF S In VF Outer = Some (Inr (N, PF')) \<Longrightarrow> extends PF PF'"
proof (induction n arbitrary: PF S In N PF')
  case 0
  then show ?case by simp
next
  case (Suc n)
  from makeDecideNode_inv[OF Suc.prems] show ?case
  proof (elim disjE exE conjE)
    assume "PF' = PF"
    then show ?thesis by (simp add: extends_refl)
  next
    fix TE TEs FE FEs TN PF1 FN PF2 C
    assume a: "makeDecideNode n H GR PF TE TEs VF Outer = Some (Inr (TN, PF1))"
      "makeDecideNode n H GR PF1 FE FEs VF Outer = Some (Inr (FN, PF2))"
      "new_node (PEGNK_Phi C TN FN) PF2 = (N, PF')"
    have "extends PF PF1" "extends PF1 PF2" using a Suc.IH by blast+
    moreover have "extends PF2 PF'" using extends_new_Phi[of PF2 C TN FN] a(3) by simp
    ultimately show ?thesis by (blast intro: extends_trans)
  qed
qed

section \<open>The shape of the inputs of a block\<close>




section \<open>The blocks and conditions of the APEG\<close>

lemma createAPEG_block_header:
  assumes "LI_isLoopHeader LI B"
  shows "createAPEG_block LI Fn B (GR, VFM, PF) =
    Inr (GR\<lparr>BBMap := bbmap_set B (Suc (Suc (length (NodesList PF)))) (BBMap GR),
            CondMap := (CondMap GR)(Suc (Suc (length (NodesList PF))) \<mapsto> Suc (Suc (Suc (length (NodesList PF))))),
            RootEdge := (if Some B = getEntryBlock Fn
                         then Some \<lparr>Source = nullptr, Dest = Suc (Suc (length (NodesList PF)))\<rparr>
                         else RootEdge GR)\<rparr>,
         VFM(Suc (Suc (length (NodesList PF))) \<mapsto> Suc (length (NodesList PF))),
         PF\<lparr>NodesList := NodesList PF @
            [PEGNK_BB \<lparr>BB = B, SurroundingLoop = None, IsEntry = False,
               VirtualForwardNode = nullptr, IsVirtualForwardNode = True\<rparr>,
             PEGNK_BB \<lparr>BB = B, SurroundingLoop = getLoopFor LI B,
               IsEntry = (Some B = getEntryBlock Fn),
               VirtualForwardNode = Suc (length (NodesList PF)), IsVirtualForwardNode = False\<rparr>,
             PEGNK_Cond (Suc (Suc (length (NodesList PF))))]\<rparr>)"
  using assms
  by (simp add: createAPEG_block_def new_PEGBasicBlock_def new_node_def block_at_def node_at_def
      makeEntryEdge_def nth_append)

lemma createAPEG_block_plain:
  assumes "\<not> LI_isLoopHeader LI B"
  shows "createAPEG_block LI Fn B (GR, VFM, PF) =
    Inr (GR\<lparr>BBMap := bbmap_set B (Suc (length (NodesList PF))) (BBMap GR),
            CondMap := (CondMap GR)(Suc (length (NodesList PF)) \<mapsto> Suc (Suc (length (NodesList PF)))),
            RootEdge := (if Some B = getEntryBlock Fn
                         then Some \<lparr>Source = nullptr, Dest = Suc (length (NodesList PF))\<rparr>
                         else RootEdge GR)\<rparr>,
         VFM(Suc (length (NodesList PF)) \<mapsto> nullptr),
         PF\<lparr>NodesList := NodesList PF @
            [PEGNK_BB \<lparr>BB = B, SurroundingLoop = getLoopFor LI B,
               IsEntry = (Some B = getEntryBlock Fn),
               VirtualForwardNode = nullptr, IsVirtualForwardNode = False\<rparr>,
             PEGNK_Cond (Suc (length (NodesList PF)))]\<rparr>)"
  using assms
  by (simp add: createAPEG_block_def new_PEGBasicBlock_def new_node_def block_at_def node_at_def
      makeEntryEdge_def nth_append)

lemma set_bbmap_set: "set (bbmap_set k v m) \<subseteq> insert (k, v) (set m)"
  by (induction m) (auto split: if_splits)

lemma map_of_bbmap_set: "map_of (bbmap_set k v m) = (map_of m)(k \<mapsto> v)"
  by (induction m) (auto simp: fun_upd_twist)

lemma keys_bbmap_set: "fst ` set (bbmap_set k v m) = insert k (fst ` set m)"
  using arg_cong[OF map_of_bbmap_set[of k v m], of dom]
  by (simp add: dom_map_of_conv_image_fst)

lemma block_at_append_old:
  assumes "block_at PF p = Inr Blk"
  shows "block_at (PF\<lparr>NodesList := NodesList PF @ ns\<rparr>) p = Inr Blk"
  using assms
  by (auto simp: block_at_def node_at_def nth_append split: option.splits PEGNode.splits if_splits)

lemma block_at_valid: "block_at PF p = Inr Blk \<Longrightarrow> 0 < p \<and> p \<le> length (NodesList PF)"
  by (auto simp: block_at_def node_at_def split: if_splits)

lemma block_at_append:
  "block_at (PF\<lparr>NodesList := NodesList PF @ ns\<rparr>) p =
     (if p \<le> length (NodesList PF) then block_at PF p
      else if p \<le> length (NodesList PF) + length ns
      then (case ns ! (p - 1 - length (NodesList PF)) of PEGNK_BB Blk \<Rightarrow> Inr Blk | _ \<Rightarrow> Inl BadPointer)
      else Inl BadPointer)"
  by (auto simp: block_at_def node_at_def nth_append split: option.splits PEGNode.splits if_splits)

lemma cond_inv_count0:
  assumes "cond_inv PF" "length (NodesList PF) < q"
  shows "count_list (NodesList PF) (PEGNK_Cond q) = 0"
  using assms by (auto simp: cond_inv_def count_list_0_iff)

lemma createAPEG_block_inv:
  assumes inv: "bbmap_inv LI GR VFM PF" "cond_inv PF"
    and step: "createAPEG_block LI Fn B (GR, VFM, PF) = Inr (GR', VFM', PF')"
  shows "bbmap_inv LI GR' VFM' PF' \<and> cond_inv PF' \<and>
         fst ` set (BBMap GR') = insert B (fst ` set (BBMap GR)) \<and>
         Successors PF' = Successors PF \<and> Predecessors PF' = Predecessors PF"
proof (cases "LI_isLoopHeader LI B")
  case True
  let ?n = "length (NodesList PF)"
  let ?vf = "\<lparr>BB = B, SurroundingLoop = None, IsEntry = False,
               VirtualForwardNode = nullptr, IsVirtualForwardNode = True\<rparr>"
  let ?bb = "\<lparr>BB = B, SurroundingLoop = getLoopFor LI B,
               IsEntry = (Some B = getEntryBlock Fn),
               VirtualForwardNode = Suc ?n, IsVirtualForwardNode = False\<rparr>"
  from step createAPEG_block_header[OF True, of Fn GR VFM PF]
  have GR': "BBMap GR' = bbmap_set B (Suc (Suc ?n)) (BBMap GR)"
    and VFM': "VFM' = VFM(Suc (Suc ?n) \<mapsto> Suc ?n)"
    and PF': "PF' = PF\<lparr>NodesList := NodesList PF @ [PEGNK_BB ?vf, PEGNK_BB ?bb, PEGNK_Cond (Suc (Suc ?n))]\<rparr>"
    by auto
  have old: "block_at PF' p = block_at PF p" if "p \<le> ?n" for p
    using that by (simp add: PF' block_at_append)
  have new1: "block_at PF' (Suc ?n) = Inr ?vf"
    by (simp add: PF' block_at_append)
  have new2: "block_at PF' (Suc (Suc ?n)) = Inr ?bb"
    by (simp add: PF' block_at_append)
  have new3: "block_at PF' p = Inl BadPointer" if "Suc (Suc ?n) < p" for p
    using that by (auto simp: PF' block_at_append nth_Cons' )
  have b: "bbmap_inv LI GR' VFM' PF'"
    unfolding bbmap_inv_def
  proof (intro allI impI)
    fix B0 p assume "(B0, p) \<in> set (BBMap GR')"
    then consider "(B0, p) = (B, Suc (Suc ?n))" | "(B0, p) \<in> set (BBMap GR)"
      using set_bbmap_set[of B "Suc (Suc ?n)" "BBMap GR"] GR' by auto
    then show "\<exists>Blk. block_at PF' p = Inr Blk \<and> BB Blk = B0 \<and> \<not> IsVirtualForwardNode Blk \<and>
           SurroundingLoop Blk = getLoopFor LI B0 \<and> VFM' p = Some (VirtualForwardNode Blk) \<and>
           (if LI_isLoopHeader LI B0
            then \<exists>V. block_at PF' (VirtualForwardNode Blk) = Inr V \<and> IsVirtualForwardNode V
            else VirtualForwardNode Blk = nullptr)"
    proof cases
      case 1
      then show ?thesis using True new1 new2 by (simp add: VFM')
    next
      case 2
      with inv(1) obtain Blk where Blk: "block_at PF p = Inr Blk" "BB Blk = B0" "\<not> IsVirtualForwardNode Blk"
        "SurroundingLoop Blk = getLoopFor LI B0" "VFM p = Some (VirtualForwardNode Blk)"
        "if LI_isLoopHeader LI B0
            then \<exists>V. block_at PF (VirtualForwardNode Blk) = Inr V \<and> IsVirtualForwardNode V
            else VirtualForwardNode Blk = nullptr"
        unfolding bbmap_inv_def by blast
      have p: "p \<le> ?n" using block_at_valid[OF Blk(1)] by simp
      have "block_at PF' (VirtualForwardNode Blk) = block_at PF (VirtualForwardNode Blk)"
        if "LI_isLoopHeader LI B0"
        using Blk(6) that block_at_valid old by auto
      then show ?thesis using Blk p old[OF p] by (auto simp: VFM')
    qed
  qed
  have c: "cond_inv PF'"
    unfolding cond_inv_def
  proof (intro conjI allI impI)
    fix q assume "PEGNK_Cond q \<in> set (NodesList PF')"
    then show "q \<le> length (NodesList PF')"
      using inv(2) by (auto simp: PF' cond_inv_def)
  next
    fix p Blk assume pb: "block_at PF' p = Inr Blk"
    consider "p \<le> ?n" | "p = Suc ?n" | "p = Suc (Suc ?n)" | "Suc (Suc ?n) < p" by linarith
    then show "count_list (NodesList PF') (PEGNK_Cond p) = (if IsVirtualForwardNode Blk then 0 else 1)"
    proof cases
      case 1
      then show ?thesis using pb old[OF 1] inv(2) by (auto simp: PF' cond_inv_def)
    next
      case 2
      then show ?thesis using pb new1 cond_inv_count0[OF inv(2), of p] by (auto simp: PF')
    next
      case 3
      then show ?thesis using pb new2 cond_inv_count0[OF inv(2), of p] by (auto simp: PF')
    next
      case 4
      then show ?thesis using pb new3 by simp
    qed
  qed
  show ?thesis using b c GR' by (simp add: keys_bbmap_set PF')
next
  case False
  let ?n = "length (NodesList PF)"
  let ?bb = "\<lparr>BB = B, SurroundingLoop = getLoopFor LI B,
               IsEntry = (Some B = getEntryBlock Fn),
               VirtualForwardNode = nullptr, IsVirtualForwardNode = False\<rparr>"
  from step createAPEG_block_plain[OF False, of Fn GR VFM PF]
  have GR': "BBMap GR' = bbmap_set B (Suc ?n) (BBMap GR)"
    and VFM': "VFM' = VFM(Suc ?n \<mapsto> nullptr)"
    and PF': "PF' = PF\<lparr>NodesList := NodesList PF @ [PEGNK_BB ?bb, PEGNK_Cond (Suc ?n)]\<rparr>"
    by auto
  have old: "block_at PF' p = block_at PF p" if "p \<le> ?n" for p
    using that by (simp add: PF' block_at_append)
  have new1: "block_at PF' (Suc ?n) = Inr ?bb"
    by (simp add: PF' block_at_append)
  have new3: "block_at PF' p = Inl BadPointer" if "Suc ?n < p" for p
    using that by (auto simp: PF' block_at_append nth_Cons')
  have b: "bbmap_inv LI GR' VFM' PF'"
    unfolding bbmap_inv_def
  proof (intro allI impI)
    fix B0 p assume "(B0, p) \<in> set (BBMap GR')"
    then consider "(B0, p) = (B, Suc ?n)" | "(B0, p) \<in> set (BBMap GR)"
      using set_bbmap_set[of B "Suc ?n" "BBMap GR"] GR' by auto
    then show "\<exists>Blk. block_at PF' p = Inr Blk \<and> BB Blk = B0 \<and> \<not> IsVirtualForwardNode Blk \<and>
           SurroundingLoop Blk = getLoopFor LI B0 \<and> VFM' p = Some (VirtualForwardNode Blk) \<and>
           (if LI_isLoopHeader LI B0
            then \<exists>V. block_at PF' (VirtualForwardNode Blk) = Inr V \<and> IsVirtualForwardNode V
            else VirtualForwardNode Blk = nullptr)"
    proof cases
      case 1
      then show ?thesis using False new1 by (simp add: VFM')
    next
      case 2
      with inv(1) obtain Blk where Blk: "block_at PF p = Inr Blk" "BB Blk = B0" "\<not> IsVirtualForwardNode Blk"
        "SurroundingLoop Blk = getLoopFor LI B0" "VFM p = Some (VirtualForwardNode Blk)"
        "if LI_isLoopHeader LI B0
            then \<exists>V. block_at PF (VirtualForwardNode Blk) = Inr V \<and> IsVirtualForwardNode V
            else VirtualForwardNode Blk = nullptr"
        unfolding bbmap_inv_def by blast
      have p: "p \<le> ?n" using block_at_valid[OF Blk(1)] by simp
      have "block_at PF' (VirtualForwardNode Blk) = block_at PF (VirtualForwardNode Blk)"
        if "LI_isLoopHeader LI B0"
        using Blk(6) that block_at_valid old by auto
      then show ?thesis using Blk p old[OF p] by (auto simp: VFM')
    qed
  qed
  have c: "cond_inv PF'"
    unfolding cond_inv_def
  proof (intro conjI allI impI)
    fix q assume "PEGNK_Cond q \<in> set (NodesList PF')"
    then show "q \<le> length (NodesList PF')"
      using inv(2) by (auto simp: PF' cond_inv_def)
  next
    fix p Blk assume pb: "block_at PF' p = Inr Blk"
    consider "p \<le> ?n" | "p = Suc ?n" | "Suc ?n < p" by linarith
    then show "count_list (NodesList PF') (PEGNK_Cond p) = (if IsVirtualForwardNode Blk then 0 else 1)"
    proof cases
      case 1
      then show ?thesis using pb old[OF 1] inv(2) by (auto simp: PF' cond_inv_def)
    next
      case 2
      then show ?thesis using pb new1 cond_inv_count0[OF inv(2), of p] by (auto simp: PF')
    next
      case 3
      then show ?thesis using pb new3 by simp
    qed
  qed
  show ?thesis using b c GR' by (simp add: keys_bbmap_set PF')
qed

lemma bbmap_inv_start: "bbmap_inv LI new_GraphRewrite VFM PF"
  by (simp add: bbmap_inv_def new_GraphRewrite_def)

lemma cond_inv_start: "cond_inv new_PEGFunction"
  by (simp add: cond_inv_def new_PEGFunction_def block_at_def node_at_def)

lemma createAPEG_blocks_inv:
  assumes "bbmap_inv LI GR VFM PF" "cond_inv PF"
    and "createAPEG_blocks LI Fn Bs (GR, VFM, PF) = Inr (GR', VFM', PF')"
  shows "bbmap_inv LI GR' VFM' PF' \<and> cond_inv PF' \<and>
         fst ` set (BBMap GR') = set Bs \<union> fst ` set (BBMap GR) \<and>
         Successors PF' = Successors PF \<and> Predecessors PF' = Predecessors PF"
  using assms
proof (induction Bs arbitrary: GR VFM PF)
  case Nil
  then show ?case by simp
next
  case (Cons B Bs)
  from Cons.prems(3) obtain GR1 VFM1 PF1 where
    s1: "createAPEG_block LI Fn B (GR, VFM, PF) = Inr (GR1, VFM1, PF1)"
    and s2: "createAPEG_blocks LI Fn Bs (GR1, VFM1, PF1) = Inr (GR', VFM', PF')"
    by (auto split: sum.splits)
  from createAPEG_block_inv[OF Cons.prems(1,2) s1]
  have i1: "bbmap_inv LI GR1 VFM1 PF1" "cond_inv PF1"
    "fst ` set (BBMap GR1) = insert B (fst ` set (BBMap GR))"
    "Successors PF1 = Successors PF" "Predecessors PF1 = Predecessors PF"
    by auto
  from Cons.IH[OF i1(1,2) s2] i1(3,4,5) show ?case by auto
qed

section \<open>The edges of the APEG\<close>

lemma NodesList_addEdge [simp]: "NodesList (addEdge a b PF) = NodesList PF"
  by (simp add: addEdge_def)

lemma block_at_addEdge [simp]: "block_at (addEdge a b PF) p = block_at PF p"
  by (simp add: block_at_def node_at_def addEdge_def)

lemma edge_target_addEdge [simp]:
  "edge_target LI VFM (addEdge a b PF) B PEGBB PredBB = edge_target LI VFM PF B PEGBB PredBB"
  by (simp add: edge_target_def)

lemma edge_target_cong:
  assumes "NodesList PF' = NodesList PF"
  shows "edge_target LI VFM PF' B PEGBB PredBB = edge_target LI VFM PF B PEGBB PredBB"
  using assms by (simp add: edge_target_def block_at_def node_at_def)

lemma createAPEG_preds_succs:
  assumes "createAPEG_preds LI GR VFM B PEGBB Ps PF = Inr PF'"
  shows "NodesList PF' = NodesList PF \<and>
     (\<forall>p q. q \<in> set (Successors PF' p) \<longleftrightarrow>
        q \<in> set (Successors PF p) \<or>
        (\<exists>PredBB \<in> set Ps. map_of (BBMap GR) PredBB = Some p \<and>
             edge_target LI VFM PF B PEGBB PredBB = Inr q))"
  using assms
proof (induction Ps arbitrary: PF)
  case Nil
  then show ?case by simp
next
  case (Cons PredBB Ps)
  from Cons.prems obtain PredPEGBB T where
    a: "map_of (BBMap GR) PredBB = Some PredPEGBB" "edge_target LI VFM PF B PEGBB PredBB = Inr T"
    "createAPEG_preds LI GR VFM B PEGBB Ps (addEdge PredPEGBB T PF) = Inr PF'"
    by (auto split: option.splits sum.splits)
  from Cons.IH[OF a(3)] have ih: "NodesList PF' = NodesList PF"
    "\<And>p q. q \<in> set (Successors PF' p) \<longleftrightarrow>
        q \<in> set (Successors (addEdge PredPEGBB T PF) p) \<or>
        (\<exists>X \<in> set Ps. map_of (BBMap GR) X = Some p \<and>
             edge_target LI VFM PF B PEGBB X = Inr q)"
    by (auto simp: addEdge_def[of PredPEGBB T PF, THEN arg_cong, of NodesList])
  have s: "q \<in> set (Successors (addEdge PredPEGBB T PF) p) \<longleftrightarrow>
      q \<in> set (Successors PF p) \<or> (p = PredPEGBB \<and> q = T)" for p q
    by (auto simp: addEdge_def)
  show ?case using ih a(1,2) by (auto simp: s)
qed

lemma createAPEG_edges_succs:
  assumes "createAPEG_edges LI Fn GR VFM M PF = Inr PF'"
  shows "NodesList PF' = NodesList PF \<and>
     (\<forall>p q. q \<in> set (Successors PF' p) \<longleftrightarrow>
        q \<in> set (Successors PF p) \<or>
        (\<exists>It \<in> set M. \<exists>PredBB \<in> set (predecessors Fn (fst It)).
             map_of (BBMap GR) PredBB = Some p \<and>
             edge_target LI VFM PF (fst It) (snd It) PredBB = Inr q))"
  using assms
proof (induction M arbitrary: PF)
  case Nil
  then show ?case by simp
next
  case (Cons It M)
  from Cons.prems obtain PF1 where
    a: "createAPEG_preds LI GR VFM (fst It) (snd It) (predecessors Fn (fst It)) PF = Inr PF1"
    "createAPEG_edges LI Fn GR VFM M PF1 = Inr PF'"
    by (auto split: sum.splits)
  from createAPEG_preds_succs[OF a(1)] have p1: "NodesList PF1 = NodesList PF"
    "\<And>p q. q \<in> set (Successors PF1 p) \<longleftrightarrow>
        q \<in> set (Successors PF p) \<or>
        (\<exists>PredBB \<in> set (predecessors Fn (fst It)). map_of (BBMap GR) PredBB = Some p \<and>
             edge_target LI VFM PF (fst It) (snd It) PredBB = Inr q)"
    by auto
  have et: "edge_target LI VFM PF1 = edge_target LI VFM PF"
    using edge_target_cong[OF p1(1)] by (intro ext) simp
  from Cons.IH[OF a(2)] have ih: "NodesList PF' = NodesList PF1"
    "\<And>p q. q \<in> set (Successors PF' p) \<longleftrightarrow>
        q \<in> set (Successors PF1 p) \<or>
        (\<exists>It \<in> set M. \<exists>PredBB \<in> set (predecessors Fn (fst It)).
             map_of (BBMap GR) PredBB = Some p \<and>
             edge_target LI VFM PF (fst It) (snd It) PredBB = Inr q)"
    by (auto simp: et)
  show ?case using ih(1) p1(1) by (auto simp: ih(2) p1(2))
qed

lemma createAPEG_preds_found:
  assumes "createAPEG_preds LI GR VFM B PEGBB Ps PF = Inr PF'" "X \<in> set Ps"
  shows "\<exists>p. map_of (BBMap GR) X = Some p"
  using assms
  by (induction Ps arbitrary: PF) (auto split: option.splits sum.splits)

lemma createAPEG_edges_found:
  assumes "createAPEG_edges LI Fn GR VFM M PF = Inr PF'" "It \<in> set M"
    "X \<in> set (predecessors Fn (fst It))"
  shows "\<exists>p. map_of (BBMap GR) X = Some p"
  using assms
  by (induction M arbitrary: PF) (auto split: sum.splits dest: createAPEG_preds_found)

lemma block_at_cong:
  assumes "NodesList PF' = NodesList PF"
  shows "block_at PF' = block_at PF"
  using assms by (intro ext) (simp add: block_at_def node_at_def)

lemma bbmap_inv_cong:
  assumes "bbmap_inv LI GR VFM PF" "NodesList PF' = NodesList PF"
  shows "bbmap_inv LI GR VFM PF'"
  using assms(1) unfolding bbmap_inv_def block_at_cong[OF assms(2)] .

lemma cond_inv_cong:
  assumes "cond_inv PF" "NodesList PF' = NodesList PF"
  shows "cond_inv PF'"
  using assms(1) unfolding cond_inv_def block_at_cong[OF assms(2)] assms(2) .

text \<open>What the APEG is made of.\<close>

lemma createAPEG_graph_props:
  assumes "createAPEG_graph LI Fn new_GraphRewrite = Inr (GR, PF)"
  shows "\<exists>VFM. bbmap_inv LI GR VFM PF \<and> cond_inv PF \<and>
     fst ` set (BBMap GR) = set (blocks Fn) \<and>
     (\<forall>It \<in> set (BBMap GR). \<forall>X \<in> set (predecessors Fn (fst It)). \<exists>p. map_of (BBMap GR) X = Some p) \<and>
     (\<forall>p q. q \<in> set (Successors PF p) \<longleftrightarrow>
        (\<exists>It \<in> set (BBMap GR). \<exists>PredBB \<in> set (predecessors Fn (fst It)).
             map_of (BBMap GR) PredBB = Some p \<and>
             edge_target LI VFM PF (fst It) (snd It) PredBB = Inr q))"
proof -
  from assms obtain VFM PF1 where
    s1: "createAPEG_blocks LI Fn (blocks Fn) (new_GraphRewrite, Map.empty, new_PEGFunction) = Inr (GR, VFM, PF1)"
    and s2: "createAPEG_edges LI Fn GR VFM (BBMap GR) PF1 = Inr PF"
    by (auto simp: createAPEG_graph_def split: sum.splits)
  from createAPEG_blocks_inv[OF bbmap_inv_start cond_inv_start s1]
  have i: "bbmap_inv LI GR VFM PF1" "cond_inv PF1" "fst ` set (BBMap GR) = set (blocks Fn)"
    "Successors PF1 = (\<lambda>_. [])"
    by (auto simp: new_GraphRewrite_def new_PEGFunction_def)
  from createAPEG_edges_succs[OF s2] have e: "NodesList PF = NodesList PF1"
    "\<And>p q. q \<in> set (Successors PF p) \<longleftrightarrow>
        (\<exists>It \<in> set (BBMap GR). \<exists>PredBB \<in> set (predecessors Fn (fst It)).
             map_of (BBMap GR) PredBB = Some p \<and>
             edge_target LI VFM PF1 (fst It) (snd It) PredBB = Inr q)"
    by (auto simp: i(4))
  have et: "edge_target LI VFM PF1 = edge_target LI VFM PF"
    using edge_target_cong[OF e(1)] by (intro ext) simp
  have f: "\<forall>It \<in> set (BBMap GR). \<forall>X \<in> set (predecessors Fn (fst It)). \<exists>p. map_of (BBMap GR) X = Some p"
    using createAPEG_edges_found[OF s2] by blast
  show ?thesis
    using bbmap_inv_cong[OF i(1) e(1)] cond_inv_cong[OF i(2) e(1)] i(3) f e(2)
    unfolding et by blast
qed

lemma isLoopLatch_same:
  assumes "getLoopFor LI P = Some L"
  shows "isLoopLatch LI (Some L) P = Inr (Loop_isLoopLatch LI L P)"
  using assms by (simp add: isLoopLatch_def)

text \<open>
  C3, as the code has it. In the APEG that \<open>createAPEG\<close> builds, and in every PEG
  function grown from it by phi and theta nodes, for every loop \<open>L\<close> with header \<open>Hd\<close>
  and every predecessor \<open>P\<close> of \<open>Hd\<close> that is a latch of \<open>L\<close> and has \<open>L\<close> as its
  innermost loop: the edge from the block of \<open>P\<close> to the virtual forward node of \<open>Hd\<close>
  is there and the edge from the block of \<open>P\<close> to the concrete block of \<open>Hd\<close> is not.
\<close>

theorem latch_redirection:
  assumes g: "createAPEG_graph LI Fn new_GraphRewrite = Inr (GR, PF)"
    and x: "extends PF PF'"
    and h: "Hd \<in> set (blocks Fn)" "LI_isLoopHeader LI Hd" "getLoopFor LI Hd = Some L"
    and l: "P \<in> set (predecessors Fn Hd)" "getLoopFor LI P = Some L" "Loop_isLoopLatch LI L P"
  shows "\<exists>pH pP Blk V.
           map_of (BBMap GR) Hd = Some pH \<and> map_of (BBMap GR) P = Some pP \<and>
           block_at PF' pH = Inr Blk \<and> BB Blk = Hd \<and> \<not> IsVirtualForwardNode Blk \<and>
           block_at PF' (VirtualForwardNode Blk) = Inr V \<and> IsVirtualForwardNode V \<and>
           VirtualForwardNode Blk \<in> set (Successors PF' pP) \<and>
           pH \<notin> set (Successors PF' pP)"
proof -
  from createAPEG_graph_props[OF g] obtain VFM where
    bi: "bbmap_inv LI GR VFM PF" and keys: "fst ` set (BBMap GR) = set (blocks Fn)"
    and found: "\<forall>It \<in> set (BBMap GR). \<forall>X \<in> set (predecessors Fn (fst It)). \<exists>p. map_of (BBMap GR) X = Some p"
    and succ: "\<And>p q. q \<in> set (Successors PF p) \<longleftrightarrow>
        (\<exists>It \<in> set (BBMap GR). \<exists>PredBB \<in> set (predecessors Fn (fst It)).
             map_of (BBMap GR) PredBB = Some p \<and>
             edge_target LI VFM PF (fst It) (snd It) PredBB = Inr q)"
    by blast
  from h(1) keys obtain pH where pH: "map_of (BBMap GR) Hd = Some pH"
    by (metis domD dom_map_of_conv_image_fst)
  then have inH: "(Hd, pH) \<in> set (BBMap GR)" by (rule map_of_SomeD)
  from found inH l(1) obtain pP where pP: "map_of (BBMap GR) P = Some pP" by fastforce
  then have inP: "(P, pP) \<in> set (BBMap GR)" by (rule map_of_SomeD)
  from bi inH h(2,3) obtain Blk V where Blk: "block_at PF pH = Inr Blk" "BB Blk = Hd"
    "\<not> IsVirtualForwardNode Blk" "SurroundingLoop Blk = Some L"
    "VFM pH = Some (VirtualForwardNode Blk)"
    "block_at PF (VirtualForwardNode Blk) = Inr V" "IsVirtualForwardNode V"
    unfolding bbmap_inv_def by fastforce
  from bi inP obtain BlkP where BlkP: "block_at PF pP = Inr BlkP" "BB BlkP = P"
    unfolding bbmap_inv_def by fastforce
  have vnz: "VirtualForwardNode Blk \<noteq> nullptr"
    using block_at_valid[OF Blk(6)] by simp
  have tgt: "edge_target LI VFM PF Hd pH P = Inr (VirtualForwardNode Blk)"
    using h(2) Blk isLoopLatch_same[OF l(2)] l(3) vnz by (simp add: edge_target_def)
  have present: "VirtualForwardNode Blk \<in> set (Successors PF pP)"
    unfolding succ using inH l(1) pP tgt by force
  have absent: "pH \<notin> set (Successors PF pP)"
  proof
    assume "pH \<in> set (Successors PF pP)"
    then obtain B0 p0 X where a: "(B0, p0) \<in> set (BBMap GR)" "X \<in> set (predecessors Fn B0)"
      "map_of (BBMap GR) X = Some pP" "edge_target LI VFM PF B0 p0 X = Inr pH"
      unfolding succ by force
    from bi a(1) obtain Blk0 where Blk0: "block_at PF p0 = Inr Blk0" "BB Blk0 = B0"
      "VFM p0 = Some (VirtualForwardNode Blk0)"
      "if LI_isLoopHeader LI B0
            then \<exists>V. block_at PF (VirtualForwardNode Blk0) = Inr V \<and> IsVirtualForwardNode V
            else VirtualForwardNode Blk0 = nullptr"
      unfolding bbmap_inv_def by fastforce
    from bi map_of_SomeD[OF a(3)] BlkP have X: "X = P"
      unfolding bbmap_inv_def by fastforce
    from a(4) consider "p0 = pH" | "LI_isLoopHeader LI B0" "VirtualForwardNode Blk0 = pH"
      using Blk0 by (auto simp: edge_target_def split: sum.splits if_splits option.splits)
    then show False
    proof cases
      case 1
      then have "B0 = Hd" using Blk0 Blk by simp
      then show False using a(4) tgt X 1 vnz Blk(6,7,3) Blk(1) by auto
    next
      case 2
      then show False using Blk0(4) Blk(1,3) by auto
    qed
  qed
  have "block_at PF' pH = Inr Blk" "block_at PF' (VirtualForwardNode Blk) = Inr V"
    using extends_block_at[OF x] Blk by auto
  moreover have "Successors PF' = Successors PF" using x by (auto simp: extends_def)
  ultimately show ?thesis using pH pP Blk(2,3,7) present absent by auto
qed

lemmas graph_eval =
  createAPEG_graph_def createAPEG_block_def new_PEGBasicBlock_def new_node_def
  block_at_def node_at_def makeEntryEdge_def getEntryBlock_def new_GraphRewrite_def
  new_PEGFunction_def edge_target_def isLoopLatch_def addEdge_def

theorem latch_redirection_witness:
  "\<exists>GR PF. createAPEG_graph ex_LI ex_loopF new_GraphRewrite = Inr (GR, PF) \<and>
     (\<exists>pH pP Blk V.
           map_of (BBMap GR) 2 = Some pH \<and> map_of (BBMap GR) 3 = Some pP \<and>
           block_at PF pH = Inr Blk \<and> BB Blk = 2 \<and> \<not> IsVirtualForwardNode Blk \<and>
           block_at PF (VirtualForwardNode Blk) = Inr V \<and> IsVirtualForwardNode V \<and>
           VirtualForwardNode Blk \<in> set (Successors PF pP) \<and>
           pH \<notin> set (Successors PF pP))"
proof -
  have "\<exists>GR PF. createAPEG_graph ex_LI ex_loopF new_GraphRewrite = Inr (GR, PF)"
    by (simp add: graph_eval ex_loopF_def ex_LI_def nth_append)
  then obtain GR PF where g: "createAPEG_graph ex_LI ex_loopF new_GraphRewrite = Inr (GR, PF)"
    by blast
  from latch_redirection[OF g extends_refl, of 2 "Loop 100 None" 3] show ?thesis
    using g by (simp add: ex_loopF_def ex_LI_def)
qed

text \<open>
  C3, as the claim states it, fails for a latch inside a nested loop. In \<open>ex_nest\<close>
  block 4 is a predecessor and a latch of the header 2, and its innermost loop is the
  inner loop. The concrete block of the header is at 4, its virtual forward node at 3
  and the block of the latch at 9: the APEG has the edge from 9 to 4 and no edge from 9
  to 3.
\<close>

theorem latch_redirection_nested_latch:
  "LI_isLoopHeader ex_nestLI 2 \<and> getLoopFor ex_nestLI 2 = Some (Loop 100 None) \<and>
   4 \<in> set (predecessors ex_nest 2) \<and> Loop_isLoopLatch ex_nestLI (Loop 100 None) 4 \<and>
   (case createAPEG_graph ex_nestLI ex_nest new_GraphRewrite of
      Inl e \<Rightarrow> False
    | Inr (GR, PF) \<Rightarrow>
        map_of (BBMap GR) 2 = Some 4 \<and> map_of (BBMap GR) 4 = Some 9 \<and>
        (case block_at PF 4 of Inl e \<Rightarrow> False | Inr Blk \<Rightarrow> VirtualForwardNode Blk = 3) \<and>
        4 \<in> set (Successors PF 9) \<and> 3 \<notin> set (Successors PF 9))"
  by (simp add: graph_eval ex_nest_def ex_nestLI_def nth_append)

section \<open>The third loop only adds nodes\<close>

lemma computeInputs_extends:
  "computeInputs k m H LI GR PF p = Some (Inr (N, PF')) \<Longrightarrow> extends PF PF'"
proof (induction k arbitrary: PF p N PF')
  case 0
  then show ?case by simp
next
  case (Suc k)
  from Suc.prems obtain B In R Decider PF1 where
    d: "makeDecideNode m H GR PF R In (createValueFnGetEdgeSource R) (getLoopSet B) = Some (Inr (Decider, PF1))"
    and r: "(\<not> isLoopHeader LI B \<and> PF' = PF1) \<or>
       (\<exists>Rec PF2. computeInputs k m H LI GR PF1 (VirtualForwardNode B) = Some (Inr (Rec, PF2)) \<and>
          new_node (PEGNK_Theta Decider Rec) PF2 = (N, PF'))"
    by (auto split: sum.splits option.splits if_splits prod.splits)
  have e1: "extends PF PF1" using makeDecideNode_extends[OF d] .
  from r show ?case
  proof (elim disjE exE conjE)
    assume "PF' = PF1"
    then show ?thesis using e1 by simp
  next
    fix Rec PF2
    assume a: "computeInputs k m H LI GR PF1 (VirtualForwardNode B) = Some (Inr (Rec, PF2))"
      "new_node (PEGNK_Theta Decider Rec) PF2 = (N, PF')"
    have "extends PF1 PF2" using Suc.IH[OF a(1)] .
    moreover have "extends PF2 PF'" using extends_new_Theta[of PF2 Decider Rec] a(2) by simp
    ultimately show ?thesis using e1 by (blast intro: extends_trans)
  qed
qed

lemma createAPEG_children_extends:
  "createAPEG_children k m H LI GR M PF = Some (Inr PF') \<Longrightarrow> extends PF PF'"
proof (induction M arbitrary: PF)
  case Nil
  then show ?case by (simp add: extends_refl)
next
  case (Cons It M)
  from Cons.prems consider
    (skip) "createAPEG_children k m H LI GR M PF = Some (Inr PF')"
  | (child) C PF1 where "computeInputs k m H LI GR PF (snd It) = Some (Inr (C, PF1))"
      "createAPEG_children k m H LI GR M (if C \<noteq> nullptr then setChild (snd It) C PF1 else PF1) = Some (Inr PF')"
    by (auto split: sum.splits option.splits if_splits prod.splits)
  then show ?case
  proof cases
    case skip
    then show ?thesis by (rule Cons.IH)
  next
    case child
    have "extends PF PF1" using computeInputs_extends[OF child(1)] .
    moreover have "extends PF1 (if C \<noteq> nullptr then setChild (snd It) C PF1 else PF1)"
      by (simp add: extends_refl extends_setChild)
    moreover have "extends (if C \<noteq> nullptr then setChild (snd It) C PF1 else PF1) PF'"
      using Cons.IH[OF child(2)] .
    ultimately show ?thesis by (blast intro: extends_trans)
  qed
qed

text \<open>When \<open>createAPEG\<close> returns, the PEG function is the APEG with phi and theta nodes added.\<close>

lemma createAPEG_graph_of:
  assumes "createAPEG k m H LI GR0 Fn = Some (Inr (PF', GR'))"
  shows "\<exists>GR PF. createAPEG_graph LI Fn GR0 = Inr (GR, PF) \<and> extends PF PF' \<and>
           GR' = GR\<lparr>PEGDT := PEGDT_recalculate H PF\<rparr>"
  using assms
  by (auto simp: createAPEG_def split: sum.splits option.splits prod.splits
      dest: createAPEG_children_extends)

lemma cond_inv_extends:
  assumes "cond_inv PF" "extends PF PF'"
  shows "cond_inv PF'"
proof -
  from assms(2) obtain ns where ns: "NodesList PF' = NodesList PF @ ns" "list_all value_node ns"
    by (auto simp: extends_def)
  have nc: "PEGNK_Cond q \<notin> set ns" for q
    using ns(2) by (auto simp: list_all_iff value_node_def)
  have cnt: "count_list (NodesList PF') (PEGNK_Cond q) = count_list (NodesList PF) (PEGNK_Cond q)" for q
    using nc[of q] by (simp add: ns(1) count_list_0_iff)
  have blk: "block_at PF p = Inr Blk" if "block_at PF' p = Inr Blk" for p Blk
  proof -
    have "PF'\<lparr>NodesList := NodesList PF @ ns\<rparr> = PF'" using ns(1) by simp
    have "block_at PF' p = block_at (PF\<lparr>NodesList := NodesList PF @ ns\<rparr>) p"
      using ns(1) by (simp add: block_at_def node_at_def)
    also have "\<dots> = (if p \<le> length (NodesList PF) then block_at PF p
      else if p \<le> length (NodesList PF) + length ns
      then (case ns ! (p - 1 - length (NodesList PF)) of PEGNK_BB Blk \<Rightarrow> Inr Blk | _ \<Rightarrow> Inl BadPointer)
      else Inl BadPointer)" by (rule block_at_append)
    finally have e: "block_at PF' p = (if p \<le> length (NodesList PF) then block_at PF p
      else if p \<le> length (NodesList PF) + length ns
      then (case ns ! (p - 1 - length (NodesList PF)) of PEGNK_BB Blk \<Rightarrow> Inr Blk | _ \<Rightarrow> Inl BadPointer)
      else Inl BadPointer)" .
    show ?thesis
    proof (cases "p \<le> length (NodesList PF)")
      case True
      then show ?thesis using e that by simp
    next
      case False
      have "p \<le> length (NodesList PF) + length ns" using e that False by (auto split: if_splits)
      then have "ns ! (p - 1 - length (NodesList PF)) \<in> set ns" using False by simp
      then have "value_node (ns ! (p - 1 - length (NodesList PF)))" using ns(2) by (simp add: list_all_iff)
      then show ?thesis using e that False
        by (auto simp: value_node_def split: if_splits PEGNode.splits)
    qed
  qed
  show ?thesis
    using assms(1) nc blk unfolding cond_inv_def cnt
    by (auto simp: ns(1))
qed

text \<open>
  C9, as the code has it. In the APEG that \<open>createAPEG\<close> builds, and in every PEG
  function grown from it by phi and theta nodes, every block of the source function
  has a concrete block, every concrete block has exactly one condition node, whatever
  the terminator of its source block is, and a virtual forward node has none.
\<close>

theorem one_condition_per_block:
  assumes g: "createAPEG_graph LI Fn new_GraphRewrite = Inr (GR, PF)"
    and x: "extends PF PF'"
  shows "(\<forall>B \<in> set (blocks Fn). \<exists>p Blk. map_of (BBMap GR) B = Some p \<and>
            block_at PF' p = Inr Blk \<and> BB Blk = B \<and> \<not> IsVirtualForwardNode Blk) \<and>
         (\<forall>p Blk. block_at PF' p = Inr Blk \<longrightarrow>
            count_list (NodesList PF') (PEGNK_Cond p) = (if IsVirtualForwardNode Blk then 0 else 1))"
proof -
  from createAPEG_graph_props[OF g] obtain VFM where
    bi: "bbmap_inv LI GR VFM PF" and ci: "cond_inv PF"
    and keys: "fst ` set (BBMap GR) = set (blocks Fn)"
    by blast
  have "\<exists>p Blk. map_of (BBMap GR) B = Some p \<and>
            block_at PF' p = Inr Blk \<and> BB Blk = B \<and> \<not> IsVirtualForwardNode Blk"
    if "B \<in> set (blocks Fn)" for B
  proof -
    from that keys obtain p where p: "map_of (BBMap GR) B = Some p"
      by (metis domD dom_map_of_conv_image_fst)
    from bi map_of_SomeD[OF p] obtain Blk where "block_at PF p = Inr Blk" "BB Blk = B"
      "\<not> IsVirtualForwardNode Blk"
      unfolding bbmap_inv_def by fastforce
    then show ?thesis using p extends_block_at[OF x] by blast
  qed
  moreover have "cond_inv PF'" using cond_inv_extends[OF ci x] .
  ultimately show ?thesis unfolding cond_inv_def by blast
qed

theorem one_condition_per_block_witness:
  "\<exists>GR PF. createAPEG_graph ex_LI ex_loopF new_GraphRewrite = Inr (GR, PF) \<and>
     (\<forall>B \<in> set (blocks ex_loopF). \<exists>p Blk. map_of (BBMap GR) B = Some p \<and>
            block_at PF p = Inr Blk \<and> BB Blk = B \<and> \<not> IsVirtualForwardNode Blk) \<and>
     (\<forall>p Blk. block_at PF p = Inr Blk \<longrightarrow>
            count_list (NodesList PF) (PEGNK_Cond p) = (if IsVirtualForwardNode Blk then 0 else 1))"
proof -
  have "\<exists>GR PF. createAPEG_graph ex_LI ex_loopF new_GraphRewrite = Inr (GR, PF)"
    by (simp add: graph_eval ex_loopF_def ex_LI_def nth_append)
  then obtain GR PF where g: "createAPEG_graph ex_LI ex_loopF new_GraphRewrite = Inr (GR, PF)"
    by blast
  from one_condition_per_block[OF g extends_refl] show ?thesis
    using g by blast
qed

lemmas run_eval =
  createAPEG_def getInEdges_def create_def findCommonDominator_def getSource_def isSubset_def
  getLoopSet_def getCommonMappedPEGNode_def createValueFnGetEdgeSource_def edge_eq_def
  setChild_def ex_Declared_def isLoopHeader_def

text \<open>
  C9, as the claim states it, fails for a block with a single successor: block 1 of
  \<open>ex_straight\<close> ends in an unconditional branch, \<open>createAPEG\<close> returns, and the
  PEG function holds one condition node for the block of block 1.
\<close>

theorem condition_for_unconditional_branch:
  "getTerminator ex_straight 1 = BranchInst False \<and>
   (case createAPEG 1 1 ex_Declared ex_noLI new_GraphRewrite ex_straight of
      Some (Inr (PF, GR)) \<Rightarrow>
        map_of (BBMap GR) 1 = Some 1 \<and> count_list (NodesList PF) (PEGNK_Cond 1) = 1
    | _ \<Rightarrow> False)"
  by (simp add: run_eval graph_eval ex_straight_def ex_noLI_def nth_append)

section \<open>The header of a nested loop\<close>


section \<open>What the pass returns\<close>

text \<open>
  The function and the analyses are arguments of \<open>run\<close>, values that the functions
  of this theory read and have no way to change: that the pass writes nothing through
  the references it borrows is a property of the objects behind them, which no theorem
  about these functions states. Of the value that \<open>run\<close> returns two facts hold. No
  call returns true.
\<close>

lemma run_never_true: "run k m H LI GR Fn \<noteq> Some (Inr (True, GR'))"
  by (auto simp: run_def split: option.splits sum.splits prod.splits)

text \<open>
  And not every call returns false: for a function with a block that has no
  predecessor the edge set of that block is empty, \<open>findCommonDominator\<close> asserts that
  it is not, and the pass stops. Block 2 of \<open>ex_unreachable\<close> is such a block.
\<close>

lemma run_stops_on_unreachable_block:
  "runOnFunction 1 1 ex_Declared ex_noLI ex_unreachable = Some (Inl AssertFailed) \<and>
   (\<forall>k m. runOnFunction k m ex_Declared ex_noLI ex_unreachable \<noteq> Some (Inr False))"
proof -
  have g: "\<exists>GR PF.
      createAPEG_graph ex_noLI ex_unreachable (new_GraphRewrite\<lparr>F := Some ex_unreachable\<rparr>) =
        Inr (GR, PF) \<and>
      BBMap GR = [(1, 1), (2, 3)] \<and>
      (\<exists>B1. block_at PF 1 = Inr B1 \<and> IsEntry B1) \<and>
      (\<exists>B3. block_at PF 3 = Inr B3 \<and> \<not> IsEntry B3) \<and>
      RootEdge GR = Some \<lparr>Source = nullptr, Dest = 1\<rparr> \<and>
      Predecessors PF 3 = []"
    by (simp add: graph_eval ex_unreachable_def ex_noLI_def nth_append)
  then obtain GR PF B1 B3 where
    gr: "createAPEG_graph ex_noLI ex_unreachable (new_GraphRewrite\<lparr>F := Some ex_unreachable\<rparr>) =
           Inr (GR, PF)"
    and f: "BBMap GR = [(1, 1), (2, 3)]" "block_at PF 1 = Inr B1" "IsEntry B1"
      "block_at PF 3 = Inr B3" "\<not> IsEntry B3" "RootEdge GR = Some \<lparr>Source = nullptr, Dest = 1\<rparr>"
      "Predecessors PF 3 = []"
    by blast
  have md: "makeDecideNode m H G PF S [] VF Outer = (if m = 0 then None else Some (Inl AssertFailed))"
    for m H G S VF Outer
    by (cases m) (simp_all add: findCommonDominator_def)
  have ci: "computeInputs k m H LI (GR\<lparr>PEGDT := D\<rparr>) PF 3 =
      (if k = 0 \<or> m = 0 then None else Some (Inl AssertFailed))" for k m H LI D
    by (cases k) (simp_all add: f getInEdges_def md del: One_nat_def)
  have r: "runOnFunction k m ex_Declared ex_noLI ex_unreachable =
      (if k = 0 \<or> m = 0 then None else Some (Inl AssertFailed))" for k m
    by (simp add: runOnFunction_def run_def createAPEG_def gr f ci del: One_nat_def)
  show ?thesis by (simp add: r)
qed

text \<open>
  C7. In \<open>ex_nest3\<close> block 2 lies in no loop and its one predecessor, block 6, lies
  in the innermost of three nested loops. For block 2 \<open>makeDecideNode\<close> starts with an
  empty \<open>Outer\<close> and a common dominator whose loop set holds two loops, so it reaches the
  branch for an inner loop and, by \<open>makeDecideNode_two_missing\<close>, calls itself without
  end: with no bounds on the depth does the pass reach \<open>assert(false)\<close> or stop in
  any other way. The same holds for \<open>makeDecideNode\<close> alone on the two blocks of
  \<open>ex_pair\<close>.
\<close>

theorem makeDecideNode_inner_loop_unbounded:
  "(\<forall>n. makeDecideNode n ex_Declared new_GraphRewrite (ex_pair (Some ex_L1))
      \<lparr>Source = nullptr, Dest = 1\<rparr> [\<lparr>Source = 1, Dest = 2\<rparr>]
      (createValueFnGetEdgeSource \<lparr>Source = nullptr, Dest = 1\<rparr>) [] = None) \<and>
   (\<forall>k m. runOnFunction k m ex_Declared ex_nest3LI ex_nest3 = None)"
proof -
  have l12: "makeConstLoopSet_for ex_L1 [] = [ex_L1, ex_L2]" "ex_L1 \<noteq> ex_L2"
    by (simp_all add: ex_L1_def ex_L2_def ex_L3_def)
  have pair: "makeDecideNode n ex_Declared new_GraphRewrite (ex_pair (Some ex_L1))
      \<lparr>Source = nullptr, Dest = 1\<rparr> [\<lparr>Source = 1, Dest = 2\<rparr>]
      (createValueFnGetEdgeSource \<lparr>Source = nullptr, Dest = 1\<rparr>) [] = None" for n
    by (rule makeDecideNode_two_missing[OF ex_fcd ex_block_at _ l12(2)]) (simp add: l12(1))
  have g: "\<exists>GR PF.
      createAPEG_graph ex_nest3LI ex_nest3 (new_GraphRewrite\<lparr>F := Some ex_nest3\<rparr>) = Inr (GR, PF) \<and>
      BBMap GR = [(1, 1), (2, 3), (3, 6), (4, 9), (5, 12), (6, 14), (7, 16), (8, 18)] \<and>
      (\<exists>B1. block_at PF 1 = Inr B1 \<and> IsEntry B1) \<and>
      (\<exists>B3. block_at PF 3 = Inr B3 \<and> \<not> IsEntry B3 \<and> SurroundingLoop B3 = None) \<and>
      (\<exists>B14. block_at PF 14 = Inr B14 \<and> SurroundingLoop B14 = Some ex_L1) \<and>
      RootEdge GR = Some \<lparr>Source = nullptr, Dest = 1\<rparr> \<and>
      Predecessors PF 3 = [14]"
    by (simp add: graph_eval ex_nest3_def ex_nest3LI_def nth_append ex_L1_def ex_L2_def ex_L3_def)
  then obtain GR PF B1 B3 B14 where
    gr: "createAPEG_graph ex_nest3LI ex_nest3 (new_GraphRewrite\<lparr>F := Some ex_nest3\<rparr>) = Inr (GR, PF)"
    and f: "BBMap GR = [(1, 1), (2, 3), (3, 6), (4, 9), (5, 12), (6, 14), (7, 16), (8, 18)]"
      "block_at PF 1 = Inr B1" "IsEntry B1"
      "block_at PF 3 = Inr B3" "\<not> IsEntry B3" "SurroundingLoop B3 = None"
      "RootEdge GR = Some \<lparr>Source = nullptr, Dest = 1\<rparr>"
      "Predecessors PF 3 = [14]"
    and b14: "block_at PF 14 = Inr B14" "SurroundingLoop B14 = Some ex_L1"
    by blast
  have ls: "makeConstLoopSet (SurroundingLoop B14) = [ex_L1, ex_L2]"
    by (simp add: b14 l12(1))
  have fcd: "findCommonDominator (PEGDT (GR\<lparr>PEGDT := D\<rparr>)) [\<lparr>Source = 14, Dest = 3\<rparr>] = Inr 14"
    for D
    by (simp add: findCommonDominator_def getSource_def)
  have md: "makeDecideNode m H (GR\<lparr>PEGDT := D\<rparr>) PF S [\<lparr>Source = 14, Dest = 3\<rparr>] VF [] = None"
    for m H S VF D
    by (rule makeDecideNode_two_missing[OF fcd b14(1) ls l12(2)])
  have ci: "computeInputs k m H LI (GR\<lparr>PEGDT := D\<rparr>) PF 3 = None" for k m H LI D
    by (cases k) (simp_all add: f getInEdges_def md create_def getLoopSet_def del: One_nat_def)
  have r: "runOnFunction k m ex_Declared ex_nest3LI ex_nest3 = None" for k m
    by (simp add: runOnFunction_def run_def createAPEG_def gr f ci del: One_nat_def)
  show ?thesis using pair r by blast
qed

end
